theory Spec2Isabelle
  imports Main "HOL-Library.Multiset"
begin

section \<open>JavaScript values the two scripts compute with\<close>

text \<open>
  A JavaScript number, as far as the branch tool needs it: the time value of a Date is
  an integer number of milliseconds or NaN, and so are the differences the sort
  comparator forms. (The difference of two time values can pass 2^53 and is then
  rounded to a double; rounding keeps its sign, which is all the sort reads.)
\<close>

datatype jsnum = NaN | Num int

text \<open>A Date object: its time value in milliseconds since the epoch, or Invalid Date.\<close>

datatype jsdate = InvalidDate | Date int

text \<open>\<^verbatim>\<open>new Date(ms)\<close> for an integral \<open>ms\<close>: TimeClip refuses more than 8.64e15 ms.\<close>

definition newDate :: "int \<Rightarrow> jsdate" where
  "newDate ms = (if \<bar>ms\<bar> \<le> 8640000000000000 then Date ms else InvalidDate)"

text \<open>\<^verbatim>\<open>Number(date)\<close>: the time value, NaN for Invalid Date.\<close>

fun NumberOfDate :: "jsdate \<Rightarrow> jsnum" where
  "NumberOfDate InvalidDate = NaN"
| "NumberOfDate (Date t) = Num t"

text \<open>\<^verbatim>\<open>a > b\<close> on numbers: false as soon as one side is NaN.\<close>

fun js_gt :: "jsnum \<Rightarrow> jsnum \<Rightarrow> bool" where
  "js_gt (Num a) (Num b) = (a > b)"
| "js_gt _ _ = False"

text \<open>\<^verbatim>\<open>a - b\<close> on numbers: NaN as soon as one side is NaN.\<close>

fun js_minus :: "jsnum \<Rightarrow> jsnum \<Rightarrow> jsnum" where
  "js_minus (Num a) (Num b) = Num (a - b)"
| "js_minus _ _ = NaN"

text \<open>\<^verbatim>\<open>!n\<close> on a number: true for NaN and for zero.\<close>

fun js_falsy :: "jsnum \<Rightarrow> bool" where
  "js_falsy NaN = True"
| "js_falsy (Num v) = (v = 0)"

subsection \<open>Array.prototype.sort with a comparator\<close>

text \<open>
  ECMAScript (2019 and later) sorts stably. SortCompare reads the comparator's result
  as a number and takes NaN for +0; an element moves behind another only where the
  comparator is positive. The model is the stable insertion sort with that reading.
\<close>

definition SortCompare :: "('a \<Rightarrow> 'a \<Rightarrow> jsnum) \<Rightarrow> 'a \<Rightarrow> 'a \<Rightarrow> int" where
  "SortCompare comparefn x y = (case comparefn x y of NaN \<Rightarrow> 0 | Num v \<Rightarrow> v)"

fun sort_insert :: "('a \<Rightarrow> 'a \<Rightarrow> jsnum) \<Rightarrow> 'a \<Rightarrow> 'a list \<Rightarrow> 'a list" where
  "sort_insert comparefn x [] = [x]"
| "sort_insert comparefn x (y # ys) =
     (if SortCompare comparefn x y > 0 then y # sort_insert comparefn x ys else x # y # ys)"

definition array_sort :: "('a \<Rightarrow> 'a \<Rightarrow> jsnum) \<Rightarrow> 'a list \<Rightarrow> 'a list" where
  "array_sort comparefn xs = foldr (sort_insert comparefn) xs []"

section \<open>The branch tool: delete-stale-and-merged-branches.ts\<close>

subsection \<open>Branch records and the classifier\<close>

record BranchNameWithDate =
  name :: string
  lastCommitDate :: jsdate

text \<open>The predicate of the \<^verbatim>\<open>filter\<close> call (line 107).\<close>

definition olderThan :: "jsdate \<Rightarrow> BranchNameWithDate \<Rightarrow> bool" where
  "olderThan modifiedDate gitBranch =
     js_gt (NumberOfDate modifiedDate) (NumberOfDate (lastCommitDate gitBranch))"

text \<open>The comparator of the \<^verbatim>\<open>sort\<close> call (line 109).\<close>

definition byCommitDate :: "BranchNameWithDate \<Rightarrow> BranchNameWithDate \<Rightarrow> jsnum" where
  "byCommitDate a b =
     js_minus (NumberOfDate (lastCommitDate a)) (NumberOfDate (lastCommitDate b))"

definition filterToBranchesModifiedSinceDate ::
  "BranchNameWithDate list \<Rightarrow> jsdate \<Rightarrow> BranchNameWithDate list" where
  "filterToBranchesModifiedSinceDate branchesWithDates modifiedDate =
     array_sort byCommitDate (filter (olderThan modifiedDate) branchesWithDates)"

text \<open>The time value of a record's date, for stating the order of valid dates.\<close>

fun millis :: "jsdate \<Rightarrow> int" where
  "millis InvalidDate = 0"
| "millis (Date t) = t"

definition commitTime :: "BranchNameWithDate \<Rightarrow> int" where
  "commitTime b = millis (lastCommitDate b)"

subsection \<open>Strings\<close>

text \<open>
  Strings are lists of 8-bit characters: the model covers the Latin-1 part of
  JavaScript's UTF-16 strings. WhiteSpace and LineTerminator of ECMAScript, in that
  range: tab, line feed, vertical tab, form feed, carriage return, space, no-break space.
\<close>

definition isWhiteSpace :: "char \<Rightarrow> bool" where
  "isWhiteSpace c =
     (c \<in> set [CHR 0x09, CHR 0x0A, CHR 0x0B, CHR 0x0C, CHR 0x0D, CHR 0x20, CHR 0xA0])"

text \<open>\<^verbatim>\<open>s.trim()\<close>\<close>

definition trim :: "string \<Rightarrow> string" where
  "trim s = rev (dropWhile isWhiteSpace (rev (dropWhile isWhiteSpace s)))"

text \<open>\<^verbatim>\<open>s.split('\n')\<close>: always at least one piece, the last one after the last line feed.\<close>

fun splitLines :: "string \<Rightarrow> string list" where
  "splitLines [] = [[]]"
| "splitLines (c # cs) =
     (if c = CHR 0x0A then [] # splitLines cs
      else (case splitLines cs of [] \<Rightarrow> [[c]] | l # ls \<Rightarrow> (c # l) # ls))"

text \<open>\<^verbatim>\<open>s.startsWith(p)\<close>\<close>

definition startsWith :: "string \<Rightarrow> string \<Rightarrow> bool" where
  "startsWith s p = (take (length p) s = p)"

text \<open>\<^verbatim>\<open>isTruthy\<close> of augment-vir, on strings: the empty string is the only falsy one.\<close>

definition isTruthy :: "string \<Rightarrow> bool" where
  "isTruthy s = (s \<noteq> [])"

text \<open>\<^verbatim>\<open>arr[i]\<close>: \<^verbatim>\<open>undefined\<close> (here \<open>None\<close>) out of range.\<close>

definition arrayIndex :: "'a list \<Rightarrow> nat \<Rightarrow> 'a option" where
  "arrayIndex arr i = (if i < length arr then Some (arr ! i) else None)"

subsection \<open>Regular expressions\<close>

text \<open>
  The four regular expressions of the scripts are sequences of character classes, each
  taken once, greedily zero or more times (\<^verbatim>\<open>*\<close>) or greedily one or more times
  (\<^verbatim>\<open>+\<close>), with one capture group, and \<^verbatim>\<open>$\<close>. The matcher backtracks as
  ECMAScript's does: a greedy class takes the next character first and gives it back
  only when the rest of the pattern fails. The flag of a class says whether it stands
  inside capture group 1.
\<close>

datatype quantifier = Once | ZeroOrMore | OneOrMore

datatype item = Cls "char \<Rightarrow> bool" quantifier bool | EndOfInput

text \<open>A match at the start of the input: the matched text and the text of group 1.\<close>

fun match_here :: "item list \<Rightarrow> string \<Rightarrow> (string \<times> string) option" where
  "match_here [] s = Some ([], [])"
| "match_here (EndOfInput # r) s = (if s = [] then match_here r s else None)"
| "match_here (Cls p Once g # r) [] = None"
| "match_here (Cls p Once g # r) (c # cs) =
     (if p c then
        (case match_here r cs of
           None \<Rightarrow> None
         | Some (w, cap) \<Rightarrow> Some (c # w, if g then c # cap else cap))
      else None)"
| "match_here (Cls p ZeroOrMore g # r) [] = match_here r []"
| "match_here (Cls p ZeroOrMore g # r) (c # cs) =
     (if p c then
        (case match_here (Cls p ZeroOrMore g # r) cs of
           Some (w, cap) \<Rightarrow> Some (c # w, if g then c # cap else cap)
         | None \<Rightarrow> match_here r (c # cs))
      else match_here r (c # cs))"
| "match_here (Cls p OneOrMore g # r) [] = None"
| "match_here (Cls p OneOrMore g # r) (c # cs) =
     (if p c then
        (case match_here (Cls p ZeroOrMore g # r) cs of
           None \<Rightarrow> None
         | Some (w, cap) \<Rightarrow> Some (c # w, if g then c # cap else cap))
      else None)"

text \<open>Without \<^verbatim>\<open>^\<close> the match may start anywhere; the leftmost start wins.\<close>

fun match_anywhere :: "item list \<Rightarrow> string \<Rightarrow> (string \<times> string) option" where
  "match_anywhere its [] = match_here its []"
| "match_anywhere its (c # cs) =
     (case match_here its (c # cs) of
        Some m \<Rightarrow> Some m
      | None \<Rightarrow> match_anywhere its cs)"

record regexp =
  anchored :: bool
  items :: "item list"

text \<open>
  \<^verbatim>\<open>safeMatch(input, regExp)\<close> of augment-vir: the array of \<^verbatim>\<open>input.match(regExp)\<close>,
  the whole match and then group 1, and the empty array where nothing matches.
\<close>

definition safeMatch :: "string \<Rightarrow> regexp \<Rightarrow> string list" where
  "safeMatch input regExp =
     (case (if anchored regExp then match_here (items regExp) input
            else match_anywhere (items regExp) input) of
        None \<Rightarrow> []
      | Some (w, cap) \<Rightarrow> [w, cap])"

definition lit :: "string \<Rightarrow> item list" where
  "lit s = map (\<lambda>c. Cls (\<lambda>x. x = c) Once False) s"

text \<open>\<^verbatim>\<open>\s\<close>, \<^verbatim>\<open>[\d\w]\<close> and \<^verbatim>\<open>.\<close> (no flag: every character but a line terminator).\<close>

definition isWordChar :: "char \<Rightarrow> bool" where
  "isWordChar c =
     (c \<in> set ''abcdefghijklmnopqrstuvwxyzABCDEFGHIJKLMNOPQRSTUVWXYZ0123456789_'')"

definition isDot :: "char \<Rightarrow> bool" where
  "isDot c = (c \<noteq> CHR 0x0A \<and> c \<noteq> CHR 0x0D)"

definition isQuote :: "char \<Rightarrow> bool" where
  "isQuote c = (c = CHR 0x27 \<or> c = CHR 0x22 \<or> c = CHR 0x60)"

text \<open>\<^verbatim>\<open>/^\s*[^\/]+\/(.+)$/\<close> (line 188)\<close>

definition mergedBranchLine :: regexp where
  "mergedBranchLine = \<lparr>anchored = True, items =
     [Cls isWhiteSpace ZeroOrMore False, Cls (\<lambda>c. c \<noteq> CHR ''/'') OneOrMore False]
     @ lit ''/'' @ [Cls isDot OneOrMore True, EndOfInput]\<rparr>"

text \<open>\<^verbatim>\<open>/^[\d\w]+\s+refs\/heads\/(.+)$/\<close> (line 208)\<close>

definition remoteBranchLine :: regexp where
  "remoteBranchLine = \<lparr>anchored = True, items =
     [Cls isWordChar OneOrMore False, Cls isWhiteSpace OneOrMore False]
     @ lit ''refs/heads/'' @ [Cls isDot OneOrMore True, EndOfInput]\<rparr>"

text \<open>\<^verbatim>\<open>/app\.([^\(]+)\(/\<close> (get-express-endpoints.ts, line 50)\<close>

definition methodCall :: regexp where
  "methodCall = \<lparr>anchored = False, items =
     lit ''app.'' @ [Cls (\<lambda>c. c \<noteq> CHR ''('') OneOrMore True] @ lit ''(''\<rparr>"

text \<open>\<^verbatim>\<open>/\(\s*['"`]([^'"`]+)['"`]/\<close> (get-express-endpoints.ts, line 53)\<close>

definition quotedPath :: regexp where
  "quotedPath = \<lparr>anchored = False, items =
     lit ''('' @ [Cls isWhiteSpace ZeroOrMore False, Cls isQuote Once False,
       Cls (\<lambda>c. \<not> isQuote c) OneOrMore True, Cls isQuote Once False]\<rparr>"

subsection \<open>Errors, the command runner and the state of a run\<close>

text \<open>
  A thrown \<^verbatim>\<open>Error\<close> with its message, or the rejection of the command runner for a
  command that exits with a code other than zero.
\<close>

datatype error = Error string | ShellError string int

record ShellOutput =
  exitCode :: int
  stdout :: string
  stderr :: string

text \<open>A shell command and the directory it runs in.\<close>

type_synonym shell_call = "string \<times> string"

text \<open>
  What the program cannot decide itself. \<open>shell\<close> is git and the remote: the output of
  a command, which may depend on every command issued before it. \<open>userInput\<close> is the
  line the user types at the prompt. \<open>dateNow\<close> is the clock, read twice when the module
  loads (lines 13 and 16). \<open>numberOther\<close> stands for \<^verbatim>\<open>Number\<close> on texts that are
  not a plain decimal integer, see \<open>dateOfTimestamp\<close> below.
\<close>

record env =
  shell :: "shell_call list \<Rightarrow> shell_call \<Rightarrow> ShellOutput"
  userInput :: string
  dateNow :: "nat \<Rightarrow> int"
  numberOther :: "string \<Rightarrow> jsdate option"

text \<open>
  The effects of a run: the commands issued so far, in order, and the two lists printed
  at the confirmation prompt once it has been shown.
\<close>

record state =
  issued :: "shell_call list"
  asked :: "(BranchNameWithDate list \<times> BranchNameWithDate list) option"

definition initial :: state where
  "initial = \<lparr>issued = [], asked = None\<rparr>"

text \<open>An awaited computation: it resolves (\<open>Inr\<close>) or rejects (\<open>Inl\<close>), and changes the state.\<close>

type_synonym 'a promise = "state \<Rightarrow> (error + 'a) \<times> state"

definition resolve :: "'a \<Rightarrow> 'a promise" where
  "resolve v = (\<lambda>s. (Inr v, s))"

definition reject :: "error \<Rightarrow> 'a promise" where
  "reject e = (\<lambda>s. (Inl e, s))"

definition await :: "'a promise \<Rightarrow> ('a \<Rightarrow> 'b promise) \<Rightarrow> 'b promise" where
  "await m f = (\<lambda>s. case m s of (Inl e, s') \<Rightarrow> (Inl e, s') | (Inr v, s') \<Rightarrow> f v s')"

text \<open>
  Modelled from the spec: \<^verbatim>\<open>runShellCommand\<close> of augment-vir, the command runner of
  section 6. It executes a command in a working directory and returns exit code,
  standard output and standard error; with \<^verbatim>\<open>rejectOnError\<close> a non-zero exit becomes a
  rejection. Every call of the script sets \<^verbatim>\<open>rejectOnError\<close>.
\<close>

definition runShellCommand :: "env \<Rightarrow> string \<Rightarrow> string \<Rightarrow> bool \<Rightarrow> ShellOutput promise" where
  "runShellCommand e command cwd rejectOnError = (\<lambda>s.
     let out = shell e (issued s) (command, cwd);
         s' = s\<lparr>issued := issued s @ [(command, cwd)]\<rparr>
     in if rejectOnError \<and> exitCode out \<noteq> 0
        then (Inl (ShellError command (exitCode out)), s')
        else (Inr out, s'))"

text \<open>
  \<^verbatim>\<open>Promise.all(xs.map(async (x) => ...))\<close>: every task is started, whatever becomes of
  the others, and the whole rejects as soon as one task does. The model runs the tasks
  to their end one after the other in the order of the list (the real interleaving of
  their commands is up to the event loop) and reports the rejection that comes first
  in that order. The same \<open>settle\<close> gives \<^verbatim>\<open>xs.map\<close> with a callback that throws.
\<close>

fun startAll :: "('a \<Rightarrow> 'b promise) \<Rightarrow> 'a list \<Rightarrow> state \<Rightarrow> (error + 'b) list \<times> state" where
  "startAll f [] s = ([], s)"
| "startAll f (x # xs) s =
     (case f x s of (r, s1) \<Rightarrow> (case startAll f xs s1 of (rs, s2) \<Rightarrow> (r # rs, s2)))"

fun settle :: "(error + 'b) list \<Rightarrow> error + 'b list" where
  "settle [] = Inr []"
| "settle (Inl e # rs) = Inl e"
| "settle (Inr v # rs) = (case settle rs of Inl e \<Rightarrow> Inl e | Inr vs \<Rightarrow> Inr (v # vs))"

definition Promise_all :: "('a \<Rightarrow> 'b promise) \<Rightarrow> 'a list \<Rightarrow> 'b list promise" where
  "Promise_all f xs = (\<lambda>s. case startAll f xs s of (rs, s') \<Rightarrow> (settle rs, s'))"

subsection \<open>Thresholds and protected names\<close>

definition day :: int where
  "day = 24 * (60 * (60 * 1000))"

definition staleBranchAge :: int where
  "staleBranchAge = 3 * (day * 30)"

definition mergedBranchAge :: int where
  "mergedBranchAge = 14 * day"

definition staleBranchDate :: "env \<Rightarrow> jsdate" where
  "staleBranchDate e = newDate (dateNow e 0 - staleBranchAge)"

definition mergedBranchDate :: "env \<Rightarrow> jsdate" where
  "mergedBranchDate e = newDate (dateNow e 1 - mergedBranchAge)"

definition ignoreTheseBranches :: "string list" where
  "ignoreTheseBranches = [''main'', ''master'', ''staging'', ''production'']"

definition filterOutKeyBranchNames :: "string list \<Rightarrow> string list" where
  "filterOutKeyBranchNames branchNames =
     filter (\<lambda>branchName. branchName \<notin> set ignoreTheseBranches) branchNames"

subsection \<open>Listing the branches\<close>

text \<open>
  The callback of \<^verbatim>\<open>lines.map\<close> in both listing functions (lines 187 to 193 and 207
  to 213): group 1 of the match, or a thrown error where it is missing or empty.
\<close>

definition failedToExtract :: "string \<Rightarrow> error" where
  "failedToExtract line =
     Error (''Failed to extract branch name from '' @ [CHR 0x22] @ line @ [CHR 0x22])"

definition extractBranchName :: "regexp \<Rightarrow> string \<Rightarrow> error + string" where
  "extractBranchName regExp line =
     (case arrayIndex (safeMatch line regExp) 1 of
        None \<Rightarrow> Inl (failedToExtract line)
      | Some branchName \<Rightarrow>
          if \<not> isTruthy branchName then Inl (failedToExtract line) else Inr branchName)"

text \<open>From the standard output of the listing command to the branch names.\<close>

definition branchNamesOf :: "regexp \<Rightarrow> string \<Rightarrow> error + string list" where
  "branchNamesOf regExp out =
     (case settle (map (extractBranchName regExp) (filter isTruthy (splitLines out))) of
        Inl err \<Rightarrow> Inl err
      | Inr branchNames \<Rightarrow> Inr (filter isTruthy branchNames))"

definition getAllMergedRemoteBranches :: "env \<Rightarrow> string \<Rightarrow> string list promise" where
  "getAllMergedRemoteBranches e contextDir =
     await (runShellCommand e ''git branch -r --merged'' contextDir True) (\<lambda>results.
       case branchNamesOf mergedBranchLine (stdout results) of
         Inl err \<Rightarrow> reject err
       | Inr branchNames \<Rightarrow> resolve branchNames)"

definition getAllRemoteBranches :: "env \<Rightarrow> string \<Rightarrow> string list promise" where
  "getAllRemoteBranches e contextDir =
     await (runShellCommand e ''git ls-remote --heads origin'' contextDir True) (\<lambda>scriptResult.
       case branchNamesOf remoteBranchLine (stdout scriptResult) of
         Inl err \<Rightarrow> reject err
       | Inr branchNames \<Rightarrow> resolve branchNames)"

definition pruneRemote :: "env \<Rightarrow> string \<Rightarrow> unit promise" where
  "pruneRemote e contextDir =
     await (runShellCommand e ''git remote prune origin'' contextDir True) (\<lambda>_. resolve ())"

subsection \<open>Resolving the commit dates\<close>

definition isDecimalDigit :: "char \<Rightarrow> bool" where
  "isDecimalDigit c = (c \<in> set ''0123456789'')"

definition decimalValue :: "string \<Rightarrow> int" where
  "decimalValue ds = foldl (\<lambda>n c. 10 * n + (int (of_char c) - 48)) 0 ds"

text \<open>
  Lines 169 to 175 on the trimmed text: \<^verbatim>\<open>Number(text)\<close>, the \<^verbatim>\<open>isNaN\<close> test and
  \<^verbatim>\<open>new Date(n * 1000)\<close>. \<open>None\<close> is the NaN that makes the function throw. The
  empty text is the number 0, and a run of decimal digits with an optional sign is its
  value (doubles are exact up to 8.64e15, and TimeClip turns everything beyond into
  Invalid Date, rounded or not). Every other text (a fraction, an exponent, a radix
  prefix, Infinity, or no number at all) is left to \<open>numberOther\<close>: it gives \<open>None\<close>
  where \<^verbatim>\<open>Number\<close> gives NaN, and the Date that is built otherwise.
\<close>

definition dateOfTimestamp :: "env \<Rightarrow> string \<Rightarrow> jsdate option" where
  "dateOfTimestamp e loggedTimestamp =
     (if loggedTimestamp = [] then Some (newDate 0)
      else
        (case (case loggedTimestamp of
                 c # r \<Rightarrow> if c = CHR ''-'' then (- 1, r) else if c = CHR ''+'' then (1, r)
                          else (1, loggedTimestamp)
               | [] \<Rightarrow> (1, [])) of
           (sign, ds) \<Rightarrow>
             if ds \<noteq> [] \<and> list_all isDecimalDigit ds
             then Some (newDate (sign * decimalValue ds * 1000))
             else numberOther e loggedTimestamp))"

definition getLastCommitDateOfBranch :: "env \<Rightarrow> string \<Rightarrow> string \<Rightarrow> jsdate promise" where
  "getLastCommitDateOfBranch e contextDir branchName =
     await (runShellCommand e (''git fetch origin '' @ branchName) contextDir True) (\<lambda>fetchResult.
       if exitCode fetchResult \<noteq> 0 then reject (Error (stderr fetchResult))
       else
         await (runShellCommand e (''git show -s --format=%ct origin/'' @ branchName)
                  contextDir True) (\<lambda>scriptResult.
           if exitCode scriptResult \<noteq> 0 then reject (Error (stderr scriptResult))
           else
             (let loggedTimestamp = trim (stdout scriptResult) in
              case dateOfTimestamp e loggedTimestamp of
                None \<Rightarrow> reject (Error (''Failed to extract numeric timestamp from ''
                                         @ [CHR 0x22] @ loggedTimestamp @ [CHR 0x22]))
              | Some d \<Rightarrow> resolve d)))"

text \<open>
  The task of one branch in \<open>getBranchDates\<close> (lines 117 to 128). A Date object is
  truthy, so the first test never fires. The message ends with the date as JavaScript
  prints it, which the model leaves out.
\<close>

definition branchDateTask :: "env \<Rightarrow> string \<Rightarrow> string \<Rightarrow> BranchNameWithDate promise" where
  "branchDateTask e contextDir branchName =
     await (getLastCommitDateOfBranch e contextDir branchName) (\<lambda>lastCommitDate.
       if js_falsy (NumberOfDate lastCommitDate)
       then reject (Error (''Failed to get last commit date for branch '' @ branchName @ '': ''))
       else resolve \<lparr>name = branchName, lastCommitDate = lastCommitDate\<rparr>)"

definition getBranchDates :: "env \<Rightarrow> string \<Rightarrow> string list \<Rightarrow> BranchNameWithDate list promise" where
  "getBranchDates e contextDir branchNames =
     Promise_all (branchDateTask e contextDir) branchNames"

subsection \<open>Deleting, confirming, and the whole run\<close>

definition deleteCommand :: "string \<Rightarrow> string" where
  "deleteCommand branchName = ''git push origin --delete '' @ branchName"

definition deleteBranch :: "env \<Rightarrow> string \<Rightarrow> string \<Rightarrow> unit promise" where
  "deleteBranch e contextDir branchName =
     await (runShellCommand e (deleteCommand branchName) contextDir True) (\<lambda>_. resolve ())"

definition deleteBranches :: "env \<Rightarrow> string \<Rightarrow> BranchNameWithDate list \<Rightarrow> unit promise" where
  "deleteBranches e contextDir branches =
     await (Promise_all (\<lambda>branch. deleteBranch e contextDir (name branch)) branches)
       (\<lambda>_. resolve ())"

text \<open>
  Modelled from the spec: \<^verbatim>\<open>askQuestion\<close> of \<^verbatim>\<open>../wait-for-cli-input\<close>, the
  interactive-input collaborator of section 6. It presents a prompt, blocks for one
  line of input and returns it.
\<close>

definition askQuestion :: "env \<Rightarrow> string \<Rightarrow> string promise" where
  "askQuestion e question = resolve (userInput e)"

text \<open>The lists are printed, then the question is asked.\<close>

definition waitForUserToAccept ::
  "env \<Rightarrow> BranchNameWithDate list \<Rightarrow> BranchNameWithDate list \<Rightarrow> string promise" where
  "waitForUserToAccept e staleBranches mergedBranches = (\<lambda>s.
     askQuestion e ''Are you sure you want to delete all these? ''
       (s\<lparr>asked := Some (staleBranches, mergedBranches)\<rparr>))"

text \<open>How the function ends when it does not throw: it returns, or it calls \<^verbatim>\<open>process.exit\<close>.\<close>

datatype finish = Returned | ProcessExit int

text \<open>
  Lines 31 to 51 of \<^verbatim>\<open>deleteStaleAndMergedBranches\<close>, up to the two classified lists
  (the stale branches and the merged branches), named so that properties of the two
  lists can be stated.
\<close>

definition classifyBranches ::
  "env \<Rightarrow> string \<Rightarrow> (BranchNameWithDate list \<times> BranchNameWithDate list) promise" where
  "classifyBranches e contextDir =
     await (pruneRemote e contextDir) (\<lambda>_.
     await (getAllRemoteBranches e contextDir) (\<lambda>allRemote.
     let remoteBranchNames = filterOutKeyBranchNames allRemote in
     await (getAllMergedRemoteBranches e contextDir) (\<lambda>allMerged.
     let mergedBranchNames = filterOutKeyBranchNames allMerged in
     await (getBranchDates e contextDir remoteBranchNames) (\<lambda>remoteBranchesWithDates.
     let staleBranchesToDelete =
           filterToBranchesModifiedSinceDate remoteBranchesWithDates (staleBranchDate e);
         staleBranchNames = set (map name staleBranchesToDelete) in
     await (getBranchDates e contextDir mergedBranchNames) (\<lambda>mergedDates.
     let mergedBranchesWithDates =
           filter (\<lambda>branch. name branch \<notin> staleBranchNames) mergedDates;
         mergedBranchesToDelete =
           filterToBranchesModifiedSinceDate mergedBranchesWithDates (mergedBranchDate e)
     in resolve (staleBranchesToDelete, mergedBranchesToDelete))))))"

text \<open>Lines 53 to 64: the prompt, and the deletions or the exit.\<close>

definition deleteStaleAndMergedBranches :: "env \<Rightarrow> string \<Rightarrow> finish promise" where
  "deleteStaleAndMergedBranches e contextDir =
     await (classifyBranches e contextDir) (\<lambda>(staleBranchesToDelete, mergedBranchesToDelete).
     await (waitForUserToAccept e staleBranchesToDelete mergedBranchesToDelete) (\<lambda>userResponse.
     if userResponse = ''yes''
     then await (deleteBranches e contextDir (staleBranchesToDelete @ mergedBranchesToDelete))
            (\<lambda>_. resolve Returned)
     else resolve (ProcessExit 0)))"

text \<open>
  The script's entry (lines 242 to 245): a rejection is caught, logged, and ends the
  process with code 1; a process that runs to its end exits with code 0.
\<close>

definition script :: "env \<Rightarrow> string \<Rightarrow> int \<times> state" where
  "script e gitDir =
     (case deleteStaleAndMergedBranches e gitDir initial of
        (Inl err, s) \<Rightarrow> (1, s)
      | (Inr (ProcessExit code), s) \<Rightarrow> (code, s)
      | (Inr Returned, s) \<Rightarrow> (0, s))"

text \<open>The deletion commands among the commands of a run.\<close>

definition isDeleteCommand :: "shell_call \<Rightarrow> bool" where
  "isDeleteCommand c = startsWith (fst c) ''git push origin --delete ''"

definition deletions :: "state \<Rightarrow> shell_call list" where
  "deletions s = filter isDeleteCommand (issued s)"

text \<open>The deletion commands a list of approved records asks for.\<close>

definition deletionsFor :: "string \<Rightarrow> BranchNameWithDate list \<Rightarrow> shell_call list" where
  "deletionsFor contextDir branches =
     map (\<lambda>branch. (deleteCommand (name branch), contextDir)) branches"

subsection \<open>Reading a run from its commands\<close>

text \<open>
  The output the \<open>i\<close>-th command of a run received: the commands before it are the
  history \<open>shell\<close> answered it with.
\<close>

definition outputAt :: "env \<Rightarrow> shell_call list \<Rightarrow> nat \<Rightarrow> ShellOutput" where
  "outputAt e cmds i = shell e (take i cmds) (cmds ! i)"

definition isFetchCommand :: "shell_call \<Rightarrow> bool" where
  "isFetchCommand c = startsWith (fst c) ''git fetch origin ''"

definition isShowCommand :: "shell_call \<Rightarrow> bool" where
  "isShowCommand c = startsWith (fst c) ''git show -s --format=%ct origin/''"

text \<open>
  The output of a date query from which no record is built: the trimmed text is no
  number, or the date built from it is Invalid Date or the epoch itself.
\<close>

definition unusableTimestamp :: "env \<Rightarrow> string \<Rightarrow> bool" where
  "unusableTimestamp e out =
     (case dateOfTimestamp e (trim out) of
        None \<Rightarrow> True
      | Some d \<Rightarrow> js_falsy (NumberOfDate d))"

text \<open>The \<open>i\<close>-th command is a fetch or a date query of a commit-date lookup that failed.\<close>

definition lookupFailedAt :: "env \<Rightarrow> shell_call list \<Rightarrow> nat \<Rightarrow> bool" where
  "lookupFailedAt e cmds i =
     (let c = cmds ! i; out = outputAt e cmds i
      in (isFetchCommand c \<and> exitCode out \<noteq> 0)
       \<or> (isShowCommand c \<and> (exitCode out \<noteq> 0 \<or> unusableTimestamp e (stdout out))))"

definition someLookupFailed :: "env \<Rightarrow> shell_call list \<Rightarrow> bool" where
  "someLookupFailed e cmds = list_ex (lookupFailedAt e cmds) [0..<length cmds]"

text \<open>A deletion command of the run that exited with a code other than zero.\<close>

definition someDeletionFailed :: "env \<Rightarrow> shell_call list \<Rightarrow> bool" where
  "someDeletionFailed e cmds =
     list_ex (\<lambda>i. isDeleteCommand (cmds ! i) \<and> exitCode (outputAt e cmds i) \<noteq> 0)
       [0..<length cmds]"

text \<open>
  What every step before the prompt keeps: it only adds commands, none of them a
  deletion, it does not show the prompt, and it rejects when one of the commands it
  added is a failed commit-date lookup.
\<close>

definition tracksLookups :: "env \<Rightarrow> 'a promise \<Rightarrow> bool" where
  "tracksLookups e m =
     (\<forall>s r s'. m s = (r, s') \<longrightarrow>
        (\<exists>ext. issued s' = issued s @ ext \<and> (\<forall>c\<in>set ext. \<not> isDeleteCommand c))
        \<and> asked s' = asked s
        \<and> ((\<exists>i. length (issued s) \<le> i \<and> i < length (issued s')
                 \<and> lookupFailedAt e (issued s') i) \<longrightarrow> isl r))"

section \<open>The route scanner: get-express-endpoints.ts\<close>

record Endpoint =
  type :: string
  path :: string

text \<open>
  The record built for the line at \<open>index\<close> (lines 50 to 57). Past the last line
  \<^verbatim>\<open>fileLines[index + 1]\<close> is \<^verbatim>\<open>undefined\<close>, and \<^verbatim>\<open>??\<close> puts the empty string in
  its place, as it does for a missing group 1.
\<close>

definition newEndpoint :: "(string \<Rightarrow> string) \<Rightarrow> string list \<Rightarrow> nat \<Rightarrow> Endpoint" where
  "newEndpoint collapseWhiteSpace fileLines index =
     (let trimmedLine = trim (fileLines ! index);
          method = (case arrayIndex (safeMatch trimmedLine methodCall) 1 of
                      None \<Rightarrow> [] | Some m \<Rightarrow> m);
          nextLine = (case arrayIndex fileLines (index + 1) of
                        None \<Rightarrow> [] | Some l \<Rightarrow> l);
          combinedLines = collapseWhiteSpace (trimmedLine @ nextLine);
          path = (case arrayIndex (safeMatch combinedLines quotedPath) 1 of
                    None \<Rightarrow> [] | Some p \<Rightarrow> p)
      in \<lparr>type = method, path = path\<rparr>)"

text \<open>The callback of \<^verbatim>\<open>fileLines.forEach\<close> (lines 47 to 60), on the list built so far.\<close>

definition scanLine ::
  "(string \<Rightarrow> string) \<Rightarrow> string list \<Rightarrow> Endpoint list \<Rightarrow> nat \<Rightarrow> Endpoint list" where
  "scanLine collapseWhiteSpace fileLines endpoints index =
     (if startsWith (trim (fileLines ! index)) ''app.''
      then endpoints @ [newEndpoint collapseWhiteSpace fileLines index]
      else endpoints)"

text \<open>
  \<open>collapseWhiteSpace\<close> of augment-vir and the file system (\<open>readFile\<close>) are parameters.
\<close>

definition getFileEndpoints ::
  "(string \<Rightarrow> string) \<Rightarrow> (string \<Rightarrow> error + string) \<Rightarrow> string \<Rightarrow> error + Endpoint list" where
  "getFileEndpoints collapseWhiteSpace readFile filePath =
     (if filePath = [] then Inl (Error ''Got empty file path.'')
      else
        (case readFile filePath of
           Inl err \<Rightarrow> Inl err
         | Inr content \<Rightarrow>
             (let fileLines = splitLines content in
              Inr (foldl (scanLine collapseWhiteSpace fileLines) [] [0..<length fileLines]))))"

section \<open>Example worlds\<close>

text \<open>
  A repository whose answers do not change during the run: the text of the two listing
  commands, the text of each date query, and the commands that exit with code 1. The
  clock stands at 1800000000000 ms.
\<close>

definition exampleShell ::
  "string \<Rightarrow> string \<Rightarrow> (string \<times> string) list \<Rightarrow> string list
     \<Rightarrow> shell_call list \<Rightarrow> shell_call \<Rightarrow> ShellOutput" where
  "exampleShell remoteList mergedList timestamps failing history c =
     \<lparr>exitCode = (if fst c \<in> set failing then 1 else 0),
      stdout = (if fst c = ''git ls-remote --heads origin'' then remoteList
                else if fst c = ''git branch -r --merged'' then mergedList
                else (case map_of timestamps (fst c) of None \<Rightarrow> [] | Some t \<Rightarrow> t)),
      stderr = []\<rparr>"

definition exampleWorld ::
  "string \<Rightarrow> string \<Rightarrow> (string \<times> string) list \<Rightarrow> string list \<Rightarrow> string \<Rightarrow> env" where
  "exampleWorld remoteList mergedList timestamps failing answer =
     \<lparr>shell = exampleShell remoteList mergedList timestamps failing,
      userInput = answer,
      dateNow = (\<lambda>_. 1800000000000),
      numberOther = (\<lambda>_. None)\<rparr>"

text \<open>Lines of text, each ended by a line feed.\<close>

definition unlines :: "string list \<Rightarrow> string" where
  "unlines ls = concat (map (\<lambda>l. l @ [CHR 0x0A]) ls)"

text \<open>
  The scenario of the specification: \<^verbatim>\<open>main\<close>, \<^verbatim>\<open>feature-a\<close> (merged, last commit 400
  days before the clock) and \<^verbatim>\<open>feature-b\<close> (last commit 10 days before).
\<close>

definition scenarioRemote :: string where
  "scenarioRemote = unlines [''a1b2'' @ [CHR 0x09] @ ''refs/heads/main'',
     ''c3d4'' @ [CHR 0x09] @ ''refs/heads/feature-a'',
     ''e5f6'' @ [CHR 0x09] @ ''refs/heads/feature-b'']"

definition scenarioMerged :: string where
  "scenarioMerged = unlines [''  origin/main'', ''  origin/feature-a'']"

definition scenarioDates :: "(string \<times> string) list" where
  "scenarioDates =
     [(''git show -s --format=%ct origin/feature-a'', unlines [''1765440000'']),
      (''git show -s --format=%ct origin/feature-b'', unlines [''1799136000''])]"

text \<open>
  A wider repository: besides the three branches of the scenario \<^verbatim>\<open>feature-c\<close> (last
  commit 200 days before the clock) and \<^verbatim>\<open>feature-d\<close> (100 days before), none of them
  merged.
\<close>

definition widerRemote :: string where
  "widerRemote = unlines [''a1b2'' @ [CHR 0x09] @ ''refs/heads/main'',
     ''c3d4'' @ [CHR 0x09] @ ''refs/heads/feature-a'',
     ''e5f6'' @ [CHR 0x09] @ ''refs/heads/feature-b'',
     ''a7b8'' @ [CHR 0x09] @ ''refs/heads/feature-c'',
     ''c9d0'' @ [CHR 0x09] @ ''refs/heads/feature-d'']"

definition widerDates :: "(string \<times> string) list" where
  "widerDates =
     [(''git show -s --format=%ct origin/feature-a'', unlines [''1765440000'']),
      (''git show -s --format=%ct origin/feature-b'', unlines [''1799136000'']),
      (''git show -s --format=%ct origin/feature-c'', unlines [''1782720000'']),
      (''git show -s --format=%ct origin/feature-d'', unlines [''1791360000''])]"

text \<open>
  The scenario with both feature branches merged and \<^verbatim>\<open>feature-b\<close> 20 days old: older
  than the merged threshold, younger than the stale one.
\<close>

definition bothMerged :: string where
  "bothMerged = unlines [''  origin/main'', ''  origin/feature-a'', ''  origin/feature-b'']"

definition agedDates :: "(string \<times> string) list" where
  "agedDates =
     [(''git show -s --format=%ct origin/feature-a'', unlines [''1765440000'']),
      (''git show -s --format=%ct origin/feature-b'', unlines [''1798272000''])]"

text \<open>A merged listing with the protected \<^verbatim>\<open>main\<close> as its only branch.\<close>

definition onlyMainMerged :: string where
  "onlyMainMerged = unlines [''  origin/main'']"

text \<open>The scenario with a date query for \<^verbatim>\<open>feature-a\<close> that prints \<^verbatim>\<open>-5\<close>.\<close>

definition negativeDates :: "(string \<times> string) list" where
  "negativeDates =
     [(''git show -s --format=%ct origin/feature-a'', unlines [''-5'']),
      (''git show -s --format=%ct origin/feature-b'', unlines [''1799136000''])]"

section \<open>Properties of the classifier\<close>

lemma olderThan_valid:
  "olderThan m b \<Longrightarrow> \<exists>t. lastCommitDate b = Date t"
  by (cases "lastCommitDate b"; cases m) (simp_all add: olderThan_def)

lemma olderThan_Date:
  "olderThan (Date m) b = (\<exists>t. lastCommitDate b = Date t \<and> t < m)"
  by (cases "lastCommitDate b") (simp_all add: olderThan_def)

lemma olderThan_same: "lastCommitDate b = m \<Longrightarrow> \<not> olderThan m b"
  by (cases m) (simp_all add: olderThan_def)

lemma array_sort_Cons: "array_sort c (x # xs) = sort_insert c x (array_sort c xs)"
  by (simp add: array_sort_def)

lemma array_sort_Nil: "array_sort c [] = []"
  by (simp add: array_sort_def)

text \<open>On records with valid dates the comparator orders by the time value.\<close>

lemma SortCompare_valid:
  "lastCommitDate x = Date a \<Longrightarrow> lastCommitDate y = Date b \<Longrightarrow>
   SortCompare byCommitDate x y = a - b"
  by (simp add: SortCompare_def byCommitDate_def)

lemma sort_insert_valid:
  assumes "\<exists>t. lastCommitDate x = Date t"
    and "\<forall>y\<in>set ys. \<exists>t. lastCommitDate y = Date t"
  shows "sort_insert byCommitDate x ys = insort_key commitTime x ys"
  using assms
proof (induction ys)
  case Nil
  then show ?case by simp
next
  case (Cons y ys)
  obtain a b where ab: "lastCommitDate x = Date a" "lastCommitDate y = Date b"
    using Cons.prems by auto
  have "sort_insert byCommitDate x ys = insort_key commitTime x ys"
    using Cons by simp
  moreover have "commitTime x = a" "commitTime y = b"
    using ab by (simp_all add: commitTime_def)
  ultimately show ?case
    using ab by (simp add: SortCompare_valid)
qed

lemma array_sort_valid:
  assumes "\<forall>y\<in>set xs. \<exists>t. lastCommitDate y = Date t"
  shows "array_sort byCommitDate xs = sort_key commitTime xs"
  using assms
proof (induction xs)
  case Nil
  then show ?case by (simp add: array_sort_Nil)
next
  case (Cons x xs)
  have ih: "array_sort byCommitDate xs = sort_key commitTime xs"
    using Cons by simp
  have "sort_insert byCommitDate x (sort_key commitTime xs)
        = insort_key commitTime x (sort_key commitTime xs)"
    using Cons.prems by (intro sort_insert_valid) simp_all
  then show ?case
    by (simp add: array_sort_Cons ih)
qed

lemma classifier_sort_key:
  "filterToBranchesModifiedSinceDate bs m = sort_key commitTime (filter (olderThan m) bs)"
  unfolding filterToBranchesModifiedSinceDate_def
  by (rule array_sort_valid) (auto dest: olderThan_valid)

lemma classifier_set:
  "set (filterToBranchesModifiedSinceDate bs m) = {b \<in> set bs. olderThan m b}"
  by (simp add: classifier_sort_key)

lemma classifier_names:
  "name ` set (filterToBranchesModifiedSinceDate bs m) \<subseteq> name ` set bs"
  by (auto simp: classifier_set)

text \<open>
  C1. For every list of records and every threshold date the classifier returns exactly
  the records whose commit date is strictly older than the threshold, each as often as
  the input has it: a record is in the output if and only if it is in the input and the
  threshold is numerically greater than its commit date; a record whose commit date
  equals the threshold is not in the output.
\<close>

theorem classifier_returns_strictly_older:
  "mset (filterToBranchesModifiedSinceDate bs m)
     = filter_mset (\<lambda>b. js_gt (NumberOfDate m) (NumberOfDate (lastCommitDate b))) (mset bs)
   \<and> (\<forall>b. b \<in> set (filterToBranchesModifiedSinceDate bs m)
          \<longleftrightarrow> b \<in> set bs \<and> js_gt (NumberOfDate m) (NumberOfDate (lastCommitDate b)))
   \<and> (\<forall>b t d. m = Date t \<and> lastCommitDate b = Date d
          \<longrightarrow> (b \<in> set (filterToBranchesModifiedSinceDate bs m) \<longleftrightarrow> b \<in> set bs \<and> d < t))
   \<and> (\<forall>b. lastCommitDate b = m \<longrightarrow> b \<notin> set (filterToBranchesModifiedSinceDate bs m))"
proof -
  have older: "olderThan m = (\<lambda>b. js_gt (NumberOfDate m) (NumberOfDate (lastCommitDate b)))"
    by (rule ext) (simp add: olderThan_def)
  have "mset (filterToBranchesModifiedSinceDate bs m) = filter_mset (olderThan m) (mset bs)"
    by (simp add: classifier_sort_key)
  moreover have "\<forall>b. b \<in> set (filterToBranchesModifiedSinceDate bs m)
      \<longleftrightarrow> b \<in> set bs \<and> olderThan m b"
    by (simp add: classifier_set)
  moreover have "\<forall>b t d. m = Date t \<and> lastCommitDate b = Date d
      \<longrightarrow> (b \<in> set (filterToBranchesModifiedSinceDate bs m) \<longleftrightarrow> b \<in> set bs \<and> d < t)"
    by (auto simp: classifier_set olderThan_Date)
  moreover have "\<forall>b. lastCommitDate b = m \<longrightarrow> b \<notin> set (filterToBranchesModifiedSinceDate bs m)"
    by (simp add: classifier_set olderThan_same)
  ultimately show ?thesis
    unfolding older by blast
qed

theorem classifier_returns_strictly_older_witness:
  "\<lparr>name = ''fix'', lastCommitDate = Date 4\<rparr>
     \<in> set (filterToBranchesModifiedSinceDate
         [\<lparr>name = ''dev'', lastCommitDate = Date 5\<rparr>, \<lparr>name = ''fix'', lastCommitDate = Date 4\<rparr>]
         (Date 5))
   \<and> \<lparr>name = ''dev'', lastCommitDate = Date 5\<rparr>
     \<notin> set (filterToBranchesModifiedSinceDate
         [\<lparr>name = ''dev'', lastCommitDate = Date 5\<rparr>, \<lparr>name = ''fix'', lastCommitDate = Date 4\<rparr>]
         (Date 5))"
  using classifier_returns_strictly_older
    [of "[\<lparr>name = ''dev'', lastCommitDate = Date 5\<rparr>, \<lparr>name = ''fix'', lastCommitDate = Date 4\<rparr>]"
        "Date 5"]
  by simp

text \<open>
  C7. The output of the classifier holds valid dates only, in ascending order (oldest
  first), and the sort is stable: the records of the output with a given commit date
  are the records of the input with that date that pass the filter, in the order of
  the input. For the input [B1 (date T), B2 (date T), B3 (date T - 1)] and a threshold
  newer than T the output is [B3, B1, B2].
\<close>

theorem classifier_sorted_stable:
  "(\<exists>ts. map lastCommitDate (filterToBranchesModifiedSinceDate bs m) = map Date ts \<and> sorted ts)
   \<and> (\<forall>d. filter (\<lambda>b. lastCommitDate b = d) (filterToBranchesModifiedSinceDate bs m)
           = filter (\<lambda>b. lastCommitDate b = d) (filter (olderThan m) bs))
   \<and> (\<forall>T thr n1 n2 n3. T < thr \<longrightarrow>
        filterToBranchesModifiedSinceDate
          [\<lparr>name = n1, lastCommitDate = Date T\<rparr>, \<lparr>name = n2, lastCommitDate = Date T\<rparr>,
           \<lparr>name = n3, lastCommitDate = Date (T - 1)\<rparr>] (Date thr)
        = [\<lparr>name = n3, lastCommitDate = Date (T - 1)\<rparr>, \<lparr>name = n1, lastCommitDate = Date T\<rparr>,
           \<lparr>name = n2, lastCommitDate = Date T\<rparr>])"
proof (intro conjI allI impI)
  let ?r = "filterToBranchesModifiedSinceDate bs m"
  have valid: "\<forall>b\<in>set ?r. lastCommitDate b = Date (commitTime b)"
    by (auto simp: classifier_set commitTime_def dest: olderThan_valid)
  have "map lastCommitDate ?r = map Date (map commitTime ?r)"
    using valid by simp
  moreover have "sorted (map commitTime ?r)"
    by (simp add: classifier_sort_key)
  ultimately show "\<exists>ts. map lastCommitDate ?r = map Date ts \<and> sorted ts"
    by blast
next
  fix d
  let ?ys = "filter (olderThan m) bs"
  have valid: "\<forall>b\<in>set ?ys. lastCommitDate b = Date (commitTime b)"
    by (auto simp: commitTime_def dest: olderThan_valid)
  show "filter (\<lambda>b. lastCommitDate b = d) (filterToBranchesModifiedSinceDate bs m)
        = filter (\<lambda>b. lastCommitDate b = d) ?ys"
  proof (cases d)
    case InvalidDate
    have "filter (\<lambda>b. lastCommitDate b = d) (sort_key commitTime ?ys) = []"
      using valid InvalidDate by (auto simp: filter_empty_conv)
    moreover have "filter (\<lambda>b. lastCommitDate b = d) ?ys = []"
      using valid InvalidDate by (auto simp: filter_empty_conv)
    ultimately show ?thesis by (simp add: classifier_sort_key)
  next
    case (Date k)
    have "filter (\<lambda>b. lastCommitDate b = d) (sort_key commitTime ?ys)
          = filter (\<lambda>b. commitTime b = k) (sort_key commitTime ?ys)"
      using valid Date by (intro filter_cong) auto
    also have "\<dots> = filter (\<lambda>b. commitTime b = k) ?ys"
      by (rule sort_key_stable)
    also have "\<dots> = filter (\<lambda>b. lastCommitDate b = d) ?ys"
      using valid Date by (intro filter_cong) auto
    finally show ?thesis by (simp add: classifier_sort_key)
  qed
next
  fix T thr :: int and n1 n2 n3 :: string
  assume "T < thr"
  then show "filterToBranchesModifiedSinceDate
          [\<lparr>name = n1, lastCommitDate = Date T\<rparr>, \<lparr>name = n2, lastCommitDate = Date T\<rparr>,
           \<lparr>name = n3, lastCommitDate = Date (T - 1)\<rparr>] (Date thr)
        = [\<lparr>name = n3, lastCommitDate = Date (T - 1)\<rparr>, \<lparr>name = n1, lastCommitDate = Date T\<rparr>,
           \<lparr>name = n2, lastCommitDate = Date T\<rparr>]"
    by (simp add: filterToBranchesModifiedSinceDate_def olderThan_def array_sort_def
        SortCompare_def byCommitDate_def)
qed

theorem classifier_sorted_stable_witness:
  "(7::int) < 9 \<and>
   filterToBranchesModifiedSinceDate
     [\<lparr>name = ''B1'', lastCommitDate = Date 7\<rparr>, \<lparr>name = ''B2'', lastCommitDate = Date 7\<rparr>,
      \<lparr>name = ''B3'', lastCommitDate = Date 6\<rparr>] (Date 9)
   = [\<lparr>name = ''B3'', lastCommitDate = Date 6\<rparr>, \<lparr>name = ''B1'', lastCommitDate = Date 7\<rparr>,
      \<lparr>name = ''B2'', lastCommitDate = Date 7\<rparr>]"
proof -
  have h: "(7::int) < 9" by simp
  from classifier_sorted_stable [of "[]" InvalidDate]
  have "\<forall>T thr n1 n2 n3. T < thr \<longrightarrow>
        filterToBranchesModifiedSinceDate
          [\<lparr>name = n1, lastCommitDate = Date T\<rparr>, \<lparr>name = n2, lastCommitDate = Date T\<rparr>,
           \<lparr>name = n3, lastCommitDate = Date (T - 1)\<rparr>] (Date thr)
        = [\<lparr>name = n3, lastCommitDate = Date (T - 1)\<rparr>, \<lparr>name = n1, lastCommitDate = Date T\<rparr>,
           \<lparr>name = n2, lastCommitDate = Date T\<rparr>]"
    by blast
  from this [rule_format, OF h, of "''B1''" "''B2''" "''B3''"] h
  show ?thesis by simp
qed

text \<open>
  C10. The classifier is idempotent: classifying its own output again with the same
  threshold gives that output.
\<close>

theorem classifier_idempotent:
  "filterToBranchesModifiedSinceDate (filterToBranchesModifiedSinceDate bs m) m
     = filterToBranchesModifiedSinceDate bs m"
proof -
  let ?r = "sort_key commitTime (filter (olderThan m) bs)"
  have "filter (olderThan m) ?r = ?r"
    by (rule filter_True) simp
  moreover have "sort_key commitTime ?r = ?r"
    by (rule sort_key_id_if_sorted) simp
  ultimately show ?thesis
    by (simp add: classifier_sort_key)
qed

theorem classifier_idempotent_witness:
  "filterToBranchesModifiedSinceDate
     (filterToBranchesModifiedSinceDate
        [\<lparr>name = ''dev'', lastCommitDate = Date 5\<rparr>, \<lparr>name = ''fix'', lastCommitDate = Date 4\<rparr>]
        (Date 6)) (Date 6)
   = [\<lparr>name = ''fix'', lastCommitDate = Date 4\<rparr>, \<lparr>name = ''dev'', lastCommitDate = Date 5\<rparr>]"
proof -
  have "filterToBranchesModifiedSinceDate
        [\<lparr>name = ''dev'', lastCommitDate = Date 5\<rparr>, \<lparr>name = ''fix'', lastCommitDate = Date 4\<rparr>]
        (Date 6)
        = [\<lparr>name = ''fix'', lastCommitDate = Date 4\<rparr>, \<lparr>name = ''dev'', lastCommitDate = Date 5\<rparr>]"
    by (simp add: filterToBranchesModifiedSinceDate_def olderThan_def array_sort_def
        SortCompare_def byCommitDate_def)
  then show ?thesis
    using classifier_idempotent
      [of "[\<lparr>name = ''dev'', lastCommitDate = Date 5\<rparr>, \<lparr>name = ''fix'', lastCommitDate = Date 4\<rparr>]"
          "Date 6"]
    by simp
qed


section \<open>Properties of the listing queries\<close>

lemma settle_all_Inr:
  "\<forall>x\<in>set xs. \<exists>v. f x = Inr v \<Longrightarrow> settle (map f xs) = Inr (map (\<lambda>x. projr (f x)) xs)"
  by (induction xs) auto

lemma settle_some_Inl:
  "\<exists>x\<in>set xs. isl (f x) \<Longrightarrow>
   \<exists>pre x post. xs = pre @ x # post \<and> (\<forall>y\<in>set pre. \<not> isl (f y)) \<and> isl (f x)
      \<and> settle (map f xs) = Inl (projl (f x))"
proof (induction xs)
  case Nil
  then show ?case by simp
next
  case (Cons a xs)
  show ?case
  proof (cases "f a")
    case (Inl e)
    then have "a # xs = [] @ a # xs \<and> (\<forall>y\<in>set []. \<not> isl (f y)) \<and> isl (f a)
        \<and> settle (map f (a # xs)) = Inl (projl (f a))"
      by simp
    then show ?thesis by blast
  next
    case (Inr v)
    then have "\<exists>x\<in>set xs. isl (f x)"
      using Cons.prems by auto
    then obtain pre x post where h: "xs = pre @ x # post" "\<forall>y\<in>set pre. \<not> isl (f y)"
        "isl (f x)" "settle (map f xs) = Inl (projl (f x))"
      using Cons.IH by blast
    have "a # xs = (a # pre) @ x # post \<and> (\<forall>y\<in>set (a # pre). \<not> isl (f y)) \<and> isl (f x)
        \<and> settle (map f (a # xs)) = Inl (projl (f x))"
      using h Inr by simp
    then show ?thesis by blast
  qed
qed

lemma isl_settle: "isl (settle rs) = (\<exists>r\<in>set rs. isl r)"
proof (induction rs)
  case Nil
  then show ?case by simp
next
  case (Cons r rs)
  then show ?case by (cases r) (auto split: sum.splits)
qed

text \<open>A match of a pattern with a one-or-more class in its group captures a character.\<close>

lemma match_here_capture:
  "match_here its s = Some (w, cap) \<Longrightarrow> \<exists>p. Cls p OneOrMore True \<in> set its \<Longrightarrow> cap \<noteq> []"
proof (induction its s arbitrary: w cap rule: match_here.induct)
  case (2 r s)
  then show ?case by (auto split: if_splits)
next
  case (4 p g r c cs)
  from "4.prems"(1) obtain w' cap' where pc: "p c"
      and m: "match_here r cs = Some (w', cap')" and cap: "cap = (if g then c # cap' else cap')"
    by (auto split: if_splits option.splits)
  show ?case
  proof (cases g)
    case True
    then show ?thesis using cap by simp
  next
    case False
    then have "\<exists>q. Cls q OneOrMore True \<in> set r" using "4.prems"(2) by auto
    then have "cap' \<noteq> []" using "4.IH" [OF pc m] by simp
    then show ?thesis using cap by simp
  qed
next
  case (5 p g r)
  then show ?case by auto
next
  case (6 p g r c cs)
  have r: "\<exists>q. Cls q OneOrMore True \<in> set r" using "6.prems"(2) by auto
  show ?case
  proof (cases "p c")
    case False
    then have "match_here r (c # cs) = Some (w, cap)" using "6.prems"(1) by simp
    then show ?thesis using "6.IH"(3) [OF False] r by simp
  next
    case True
    show ?thesis
    proof (cases "match_here (Cls p ZeroOrMore g # r) cs")
      case None
      then have "match_here r (c # cs) = Some (w, cap)"
        using "6.prems"(1) True by simp
      then show ?thesis using "6.IH"(2) [OF True None] r by simp
    next
      case (Some m)
      obtain w' cap' where m: "m = (w', cap')" by (cases m)
      have "cap' \<noteq> []"
        using "6.IH"(1) [OF True Some [unfolded m]] "6.prems"(2) by simp
      moreover have "cap = (if g then c # cap' else cap')"
        using "6.prems"(1) True Some m by simp
      ultimately show ?thesis by simp
    qed
  qed
next
  case (8 p g r c cs)
  from "8.prems"(1) obtain w' cap' where pc: "p c"
      and m: "match_here (Cls p ZeroOrMore g # r) cs = Some (w', cap')"
      and cap: "cap = (if g then c # cap' else cap')"
    by (auto split: if_splits option.splits)
  show ?case
  proof (cases g)
    case True
    then show ?thesis using cap by simp
  next
    case False
    then have "\<exists>q. Cls q OneOrMore True \<in> set (Cls p ZeroOrMore g # r)"
      using "8.prems"(2) by auto
    then have "cap' \<noteq> []" using "8.IH" [OF pc m] by simp
    then show ?thesis using cap by simp
  qed
qed simp_all

lemma listing_patterns_capture:
  assumes "re = mergedBranchLine \<or> re = remoteBranchLine"
  shows "safeMatch l re = [] \<or> (\<exists>w cap. safeMatch l re = [w, cap] \<and> cap \<noteq> [])"
proof -
  have anch: "anchored re" and its: "\<exists>p. Cls p OneOrMore True \<in> set (items re)"
    using assms by (auto simp: mergedBranchLine_def remoteBranchLine_def)
  show ?thesis
  proof (cases "match_here (items re) l")
    case None
    then show ?thesis by (simp add: safeMatch_def anch)
  next
    case (Some m)
    obtain w cap where m: "m = (w, cap)" by (cases m)
    have "cap \<noteq> []" using match_here_capture [OF Some [unfolded m] its] .
    then show ?thesis by (simp add: safeMatch_def anch Some m)
  qed
qed

lemma extractBranchName_cases:
  assumes "re = mergedBranchLine \<or> re = remoteBranchLine"
  shows "extractBranchName re l =
           (if safeMatch l re = [] then Inl (failedToExtract l) else Inr (safeMatch l re ! 1))"
    and "safeMatch l re \<noteq> [] \<Longrightarrow> safeMatch l re ! 1 \<noteq> []"
  using listing_patterns_capture [OF assms, of l]
  by (auto simp: extractBranchName_def arrayIndex_def isTruthy_def)

lemma branchNamesOf_ok:
  assumes re: "re = mergedBranchLine \<or> re = remoteBranchLine"
    and ok: "\<forall>l\<in>set (splitLines out). l \<noteq> [] \<longrightarrow> safeMatch l re \<noteq> []"
  shows "branchNamesOf re out
         = Inr (map (\<lambda>l. safeMatch l re ! 1) (filter (\<lambda>l. l \<noteq> []) (splitLines out)))"
proof -
  let ?ls = "filter isTruthy (splitLines out)"
  have all: "\<forall>l\<in>set ?ls. extractBranchName re l = Inr (safeMatch l re ! 1)"
    using ok by (simp add: extractBranchName_cases(1) [OF re] isTruthy_def)
  then have "settle (map (extractBranchName re) ?ls)
      = Inr (map (\<lambda>l. projr (extractBranchName re l)) ?ls)"
    by (intro settle_all_Inr) blast
  also have "map (\<lambda>l. projr (extractBranchName re l)) ?ls = map (\<lambda>l. safeMatch l re ! 1) ?ls"
    using all by (intro map_cong) simp_all
  finally have s: "settle (map (extractBranchName re) ?ls) = Inr (map (\<lambda>l. safeMatch l re ! 1) ?ls)" .
  have "filter isTruthy (map (\<lambda>l. safeMatch l re ! 1) ?ls) = map (\<lambda>l. safeMatch l re ! 1) ?ls"
    using ok extractBranchName_cases(2) [OF re]
    by (intro filter_True) (auto simp: isTruthy_def)
  then show ?thesis
    using s by (simp add: branchNamesOf_def isTruthy_def [abs_def])
qed

lemma branchNamesOf_fails:
  assumes re: "re = mergedBranchLine \<or> re = remoteBranchLine"
    and bad: "\<exists>l\<in>set (splitLines out). l \<noteq> [] \<and> safeMatch l re = []"
  shows "\<exists>l\<in>set (splitLines out). l \<noteq> [] \<and> safeMatch l re = []
           \<and> branchNamesOf re out = Inl (failedToExtract l)"
proof -
  let ?ls = "filter isTruthy (splitLines out)"
  have "\<exists>l\<in>set ?ls. isl (extractBranchName re l)"
    using bad by (auto simp: extractBranchName_cases(1) [OF re] isTruthy_def)
  from settle_some_Inl [OF this]
  obtain pre l post where h: "?ls = pre @ l # post" "isl (extractBranchName re l)"
      "settle (map (extractBranchName re) ?ls) = Inl (projl (extractBranchName re l))"
    by blast
  have "l \<in> set ?ls" using h(1) by simp
  then have l: "l \<in> set (splitLines out)" "l \<noteq> []"
    by (simp_all add: isTruthy_def)
  have nomatch: "safeMatch l re = []"
    using h(2) by (simp add: extractBranchName_cases(1) [OF re] split: if_splits)
  then have "branchNamesOf re out = Inl (failedToExtract l)"
    using h(3) by (simp add: branchNamesOf_def extractBranchName_cases(1) [OF re])
  then show ?thesis using l nomatch by blast
qed

lemma getAllMergedRemoteBranches_result:
  "fst (getAllMergedRemoteBranches e dir s)
     = (let out = shell e (issued s) (''git branch -r --merged'', dir)
        in if exitCode out \<noteq> 0 then Inl (ShellError ''git branch -r --merged'' (exitCode out))
           else branchNamesOf mergedBranchLine (stdout out))"
  by (simp add: getAllMergedRemoteBranches_def await_def runShellCommand_def Let_def
      reject_def resolve_def split: sum.splits)

lemma getAllRemoteBranches_result:
  "fst (getAllRemoteBranches e dir s)
     = (let out = shell e (issued s) (''git ls-remote --heads origin'', dir)
        in if exitCode out \<noteq> 0
           then Inl (ShellError ''git ls-remote --heads origin'' (exitCode out))
           else branchNamesOf remoteBranchLine (stdout out))"
  by (simp add: getAllRemoteBranches_def await_def runShellCommand_def Let_def
      reject_def resolve_def split: sum.splits)

lemma settle_first_Inl:
  "\<forall>x\<in>set pre. \<not> isl (f x) \<Longrightarrow> f l = Inl err \<Longrightarrow> settle (map f (pre @ l # post)) = Inl err"
proof (induction pre)
  case Nil
  then show ?case by simp
next
  case (Cons a pre)
  then obtain v where "f a = Inr v" by (cases "f a") auto
  then show ?case using Cons by simp
qed

text \<open>The first non-empty line that does not match decides the error.\<close>

lemma branchNamesOf_first:
  assumes re: "re = mergedBranchLine \<or> re = remoteBranchLine"
    and split: "filter (\<lambda>l. l \<noteq> []) (splitLines out) = pre @ l # post"
    and pre: "\<forall>x\<in>set pre. safeMatch x re \<noteq> []"
    and l: "safeMatch l re = []"
  shows "branchNamesOf re out = Inl (failedToExtract l)"
proof -
  have ls: "filter isTruthy (splitLines out) = pre @ l # post"
    using split by (simp add: isTruthy_def [abs_def])
  have "\<forall>x\<in>set pre. \<not> isl (extractBranchName re x)"
    using pre by (simp add: extractBranchName_cases(1) [OF re])
  moreover have "extractBranchName re l = Inl (failedToExtract l)"
    using l by (simp add: extractBranchName_cases(1) [OF re])
  ultimately have "settle (map (extractBranchName re) (pre @ l # post)) = Inl (failedToExtract l)"
    by (rule settle_first_Inl)
  then show ?thesis
    by (simp add: branchNamesOf_def ls)
qed

lemma first_malformed_line:
  assumes "\<exists>l\<in>set (splitLines out). l \<noteq> [] \<and> safeMatch l re = []"
  shows "\<exists>pre l post. filter (\<lambda>l. l \<noteq> []) (splitLines out) = pre @ l # post
           \<and> (\<forall>x\<in>set pre. safeMatch x re \<noteq> []) \<and> safeMatch l re = []"
proof -
  let ?ls = "filter (\<lambda>l. l \<noteq> []) (splitLines out)"
  have "\<exists>x\<in>set ?ls. safeMatch x re = []" using assms by auto
  then obtain pre l post where "?ls = pre @ l # post" "safeMatch l re = []"
      "\<forall>x\<in>set pre. \<not> safeMatch x re = []"
    using split_list_first_prop [of ?ls "\<lambda>x. safeMatch x re = []"] by blast
  then show ?thesis by blast
qed

section \<open>Properties of the route scanner\<close>

lemma foldl_scanLine:
  "foldl (scanLine c ls) acc is
     = acc @ map (newEndpoint c ls) (filter (\<lambda>i. startsWith (trim (ls ! i)) ''app.'') is)"
  by (induction "is" arbitrary: acc) (simp_all add: scanLine_def)

lemma filter_by_index:
  "filter P xs = map (\<lambda>i. xs ! i) (filter (\<lambda>i. P (xs ! i)) [0..<length xs])"
proof -
  have "filter P (map (\<lambda>i. xs ! i) [0..<length xs])
        = map (\<lambda>i. xs ! i) (filter (\<lambda>i. P (xs ! i)) [0..<length xs])"
    by (simp add: filter_map comp_def)
  then show ?thesis by (simp add: map_nth)
qed

text \<open>
  C9. For a file that can be read, the scanner returns one record for every line whose
  trimmed form starts with \<^verbatim>\<open>app.\<close>, in the order of the lines, and for no other line:
  nothing is skipped. The record of such a line has the empty path where no quoted path
  argument is found on the line joined with the next one, and the empty type where the
  method pattern does not match the line.
\<close>

theorem scanner_emits_every_app_line:
  assumes "filePath \<noteq> []" and "readFile filePath = Inr content"
  shows "getFileEndpoints c readFile filePath
           = Inr (map (newEndpoint c (splitLines content))
                    (filter (\<lambda>i. startsWith (trim (splitLines content ! i)) ''app.'')
                       [0..<length (splitLines content)]))
       \<and> (\<exists>eps. getFileEndpoints c readFile filePath = Inr eps
             \<and> length eps
                 = length (filter (\<lambda>l. startsWith (trim l) ''app.'') (splitLines content)))
       \<and> (\<forall>ls i. safeMatch (c (trim (ls ! i)
                     @ (case arrayIndex ls (i + 1) of None \<Rightarrow> [] | Some l \<Rightarrow> l))) quotedPath = []
             \<longrightarrow> path (newEndpoint c ls i) = [])
       \<and> (\<forall>ls i. safeMatch (trim (ls ! i)) methodCall = []
             \<longrightarrow> type (newEndpoint c ls i) = [])"
proof -
  let ?ls = "splitLines content"
  let ?P = "\<lambda>l. startsWith (trim l) ''app.''"
  have eq: "getFileEndpoints c readFile filePath
      = Inr (map (newEndpoint c ?ls) (filter (\<lambda>i. ?P (?ls ! i)) [0..<length ?ls]))"
    using assms by (simp add: getFileEndpoints_def foldl_scanLine Let_def)
  have "length (filter ?P ?ls) = length (filter (\<lambda>i. ?P (?ls ! i)) [0..<length ?ls])"
    using filter_by_index [of ?P ?ls] by (metis length_map)
  then have len: "\<exists>eps. getFileEndpoints c readFile filePath = Inr eps
      \<and> length eps = length (filter ?P ?ls)"
    using eq by simp
  have p: "\<forall>ls i. safeMatch (c (trim (ls ! i)
              @ (case arrayIndex ls (i + 1) of None \<Rightarrow> [] | Some l \<Rightarrow> l))) quotedPath = []
             \<longrightarrow> path (newEndpoint c ls i) = []"
    by (simp add: newEndpoint_def arrayIndex_def Let_def)
  have m: "\<forall>ls i. safeMatch (trim (ls ! i)) methodCall = []
             \<longrightarrow> type (newEndpoint c ls i) = []"
    by (simp add: newEndpoint_def arrayIndex_def Let_def)
  show ?thesis using eq len p m by blast
qed

theorem scanner_emits_every_app_line_witness:
  "''routes.ts'' \<noteq> []
   \<and> getFileEndpoints id (\<lambda>_. Inr (unlines [''  app.use'', ''const x = 1;'', ''app.get('',
         ''  '' @ [CHR 0x22] @ ''/a'' @ [CHR 0x22] @ '', handler)''])) ''routes.ts''
     = Inr [\<lparr>type = [], path = []\<rparr>, \<lparr>type = ''get'', path = ''/a''\<rparr>]"
proof -
  have h: "''routes.ts'' \<noteq> []" by simp
  have r: "(\<lambda>_. Inr (unlines [''  app.use'', ''const x = 1;'', ''app.get('',
         ''  '' @ [CHR 0x22] @ ''/a'' @ [CHR 0x22] @ '', handler)''])) ''routes.ts''
      = (Inr (unlines [''  app.use'', ''const x = 1;'', ''app.get('',
         ''  '' @ [CHR 0x22] @ ''/a'' @ [CHR 0x22] @ '', handler)'']) :: error + string)"
    by simp
  have v: "map (newEndpoint id (splitLines (unlines [''  app.use'', ''const x = 1;'', ''app.get('',
         ''  '' @ [CHR 0x22] @ ''/a'' @ [CHR 0x22] @ '', handler)''])))
       (filter (\<lambda>i. startsWith (trim (splitLines (unlines [''  app.use'', ''const x = 1;'',
          ''app.get('', ''  '' @ [CHR 0x22] @ ''/a'' @ [CHR 0x22] @ '', handler)'']) ! i)) ''app.'')
          [0..<length (splitLines (unlines [''  app.use'', ''const x = 1;'', ''app.get('',
         ''  '' @ [CHR 0x22] @ ''/a'' @ [CHR 0x22] @ '', handler)'']))])
      = [\<lparr>type = [], path = []\<rparr>, \<lparr>type = ''get'', path = ''/a''\<rparr>]"
    by code_simp
  from scanner_emits_every_app_line [OF h r, of id] v h
  show ?thesis by simp
qed

section \<open>Properties of the steps of a run\<close>

lemma startsWith_append: "startsWith (p @ s) p"
  by (simp add: startsWith_def)

lemma command_kinds:
  "isFetchCommand (''git fetch origin '' @ b, d)"
  "\<not> isShowCommand (''git fetch origin '' @ b, d)"
  "\<not> isDeleteCommand (''git fetch origin '' @ b, d)"
  "isShowCommand (''git show -s --format=%ct origin/'' @ b, d)"
  "\<not> isFetchCommand (''git show -s --format=%ct origin/'' @ b, d)"
  "\<not> isDeleteCommand (''git show -s --format=%ct origin/'' @ b, d)"
  "isDeleteCommand (deleteCommand b, d)"
  "\<not> isFetchCommand (deleteCommand b, d)"
  "\<not> isShowCommand (deleteCommand b, d)"
  by (simp_all add: isFetchCommand_def isShowCommand_def isDeleteCommand_def deleteCommand_def
      startsWith_def)

lemma listing_command_kinds:
  "\<not> isFetchCommand (''git remote prune origin'', d)"
  "\<not> isShowCommand (''git remote prune origin'', d)"
  "\<not> isDeleteCommand (''git remote prune origin'', d)"
  "\<not> isFetchCommand (''git ls-remote --heads origin'', d)"
  "\<not> isShowCommand (''git ls-remote --heads origin'', d)"
  "\<not> isDeleteCommand (''git ls-remote --heads origin'', d)"
  "\<not> isFetchCommand (''git branch -r --merged'', d)"
  "\<not> isShowCommand (''git branch -r --merged'', d)"
  "\<not> isDeleteCommand (''git branch -r --merged'', d)"
  by (simp_all add: isFetchCommand_def isShowCommand_def isDeleteCommand_def startsWith_def)

text \<open>What an earlier command received does not change when the run goes on.\<close>

lemma outputAt_append: "i < length cmds \<Longrightarrow> outputAt e (cmds @ ext) i = outputAt e cmds i"
  by (simp add: outputAt_def nth_append)

lemma lookupFailedAt_append:
  "i < length cmds \<Longrightarrow> lookupFailedAt e (cmds @ ext) i = lookupFailedAt e cmds i"
  by (simp add: lookupFailedAt_def outputAt_append nth_append)

lemma outputAt_last: "outputAt e (cmds @ c # ext) (length cmds) = shell e cmds c"
  by (simp add: outputAt_def)


lemma tracksLookups_resolve: "tracksLookups e (resolve v)"
  by (simp add: tracksLookups_def resolve_def)

lemma tracksLookups_reject: "tracksLookups e (reject err)"
  by (simp add: tracksLookups_def reject_def)

lemma tracksLookups_await:
  assumes m: "tracksLookups e m" and f: "\<And>v. tracksLookups e (f v)"
  shows "tracksLookups e (await m f)"
  unfolding tracksLookups_def
proof (intro allI impI)
  fix s r s'
  assume run: "await m f s = (r, s')"
  obtain r1 s1 where m1: "m s = (r1, s1)" by (cases "m s")
  from m [unfolded tracksLookups_def, rule_format, OF m1]
  obtain ext1 where e1: "issued s1 = issued s @ ext1" "\<forall>c\<in>set ext1. \<not> isDeleteCommand c"
      and a1: "asked s1 = asked s"
      and l1: "(\<exists>i. length (issued s) \<le> i \<and> i < length (issued s1)
                 \<and> lookupFailedAt e (issued s1) i) \<longrightarrow> isl r1"
    by blast
  show "(\<exists>ext. issued s' = issued s @ ext \<and> (\<forall>c\<in>set ext. \<not> isDeleteCommand c))
        \<and> asked s' = asked s
        \<and> ((\<exists>i. length (issued s) \<le> i \<and> i < length (issued s')
                 \<and> lookupFailedAt e (issued s') i) \<longrightarrow> isl r)"
  proof (cases r1)
    case (Inl err)
    then have "isl r" "s' = s1" using run m1 by (auto simp: await_def)
    then show ?thesis using e1 a1 by blast
  next
    case (Inr v)
    then have f1: "f v s1 = (r, s')" using run m1 by (simp add: await_def)
    from f [unfolded tracksLookups_def, rule_format, OF f1]
    obtain ext2 where e2: "issued s' = issued s1 @ ext2" "\<forall>c\<in>set ext2. \<not> isDeleteCommand c"
        and a2: "asked s' = asked s1"
        and l2: "(\<exists>i. length (issued s1) \<le> i \<and> i < length (issued s')
                 \<and> lookupFailedAt e (issued s') i) \<longrightarrow> isl r"
      by blast
    have ext: "issued s' = issued s @ (ext1 @ ext2)" "\<forall>c\<in>set (ext1 @ ext2). \<not> isDeleteCommand c"
      using e1 e2 by auto
    have "isl r" if i: "length (issued s) \<le> i" "i < length (issued s')"
        "lookupFailedAt e (issued s') i" for i
    proof (cases "i < length (issued s1)")
      case True
      then have "lookupFailedAt e (issued s1) i"
        using i(3) e2(1) by (simp add: lookupFailedAt_append)
      then have "isl r1" using l1 i(1) True by blast
      then show ?thesis using Inr by simp
    next
      case False
      then show ?thesis using l2 i by auto
    qed
    then show ?thesis using ext a1 a2 by (metis)
  qed
qed

lemma tracksLookups_runShellCommand:
  assumes "\<not> isFetchCommand (c, d)" "\<not> isShowCommand (c, d)" "\<not> isDeleteCommand (c, d)"
  shows "tracksLookups e (runShellCommand e c d b)"
  unfolding tracksLookups_def
proof (intro allI impI)
  fix s r s'
  assume run: "runShellCommand e c d b s = (r, s')"
  then have s': "issued s' = issued s @ [(c, d)]" "asked s' = asked s"
    by (auto simp: runShellCommand_def Let_def split: if_splits)
  have "\<not> lookupFailedAt e (issued s') i" if "length (issued s) \<le> i" "i < length (issued s')" for i
  proof -
    have "i = length (issued s)" using that s' by simp
    then show ?thesis using assms s' by (simp add: lookupFailedAt_def Let_def)
  qed
  then show "(\<exists>ext. issued s' = issued s @ ext \<and> (\<forall>c\<in>set ext. \<not> isDeleteCommand c))
        \<and> asked s' = asked s
        \<and> ((\<exists>i. length (issued s) \<le> i \<and> i < length (issued s')
                 \<and> lookupFailedAt e (issued s') i) \<longrightarrow> isl r)"
    using s' assms(3) by auto
qed

lemma tracksLookups_case_sum:
  "(\<And>err. tracksLookups e (f err)) \<Longrightarrow> (\<And>v. tracksLookups e (g v)) \<Longrightarrow>
   tracksLookups e (case x of Inl err \<Rightarrow> f err | Inr v \<Rightarrow> g v)"
  by (cases x) simp_all

lemma tracksLookups_pruneRemote: "tracksLookups e (pruneRemote e d)"
  unfolding pruneRemote_def
  by (intro tracksLookups_await tracksLookups_runShellCommand tracksLookups_resolve
      listing_command_kinds)

lemma tracksLookups_getAllRemoteBranches: "tracksLookups e (getAllRemoteBranches e d)"
  unfolding getAllRemoteBranches_def
  by (intro tracksLookups_await tracksLookups_runShellCommand tracksLookups_case_sum
      tracksLookups_resolve tracksLookups_reject listing_command_kinds)

lemma tracksLookups_getAllMergedRemoteBranches:
  "tracksLookups e (getAllMergedRemoteBranches e d)"
  unfolding getAllMergedRemoteBranches_def
  by (intro tracksLookups_await tracksLookups_runShellCommand tracksLookups_case_sum
      tracksLookups_resolve tracksLookups_reject listing_command_kinds)


text \<open>The task of one branch, step by step.\<close>

lemma branchDateTask_run:
  "branchDateTask e d b s =
     (let f = (''git fetch origin '' @ b, d);
          sh = (''git show -s --format=%ct origin/'' @ b, d);
          fo = shell e (issued s) f;
          so = shell e (issued s @ [f]) sh
      in if exitCode fo \<noteq> 0
         then (Inl (ShellError (fst f) (exitCode fo)), s\<lparr>issued := issued s @ [f]\<rparr>)
         else if exitCode so \<noteq> 0
         then (Inl (ShellError (fst sh) (exitCode so)), s\<lparr>issued := issued s @ [f, sh]\<rparr>)
         else (case dateOfTimestamp e (trim (stdout so)) of
                 None \<Rightarrow>
                   (Inl (Error (''Failed to extract numeric timestamp from ''
                                 @ [CHR 0x22] @ trim (stdout so) @ [CHR 0x22])),
                    s\<lparr>issued := issued s @ [f, sh]\<rparr>)
               | Some dt \<Rightarrow>
                   if js_falsy (NumberOfDate dt)
                   then (Inl (Error (''Failed to get last commit date for branch '' @ b @ '': '')),
                         s\<lparr>issued := issued s @ [f, sh]\<rparr>)
                   else (Inr \<lparr>name = b, lastCommitDate = dt\<rparr>,
                         s\<lparr>issued := issued s @ [f, sh]\<rparr>)))"
  by (simp add: branchDateTask_def getLastCommitDateOfBranch_def await_def runShellCommand_def
      Let_def reject_def resolve_def split: option.splits)

lemma branchDateTask_name: "branchDateTask e d b s = (Inr v, s') \<Longrightarrow> name v = b"
  by (auto simp: branchDateTask_run Let_def split: if_splits option.splits)

lemma tracksLookups_branchDateTask: "tracksLookups e (branchDateTask e d b)"
  unfolding tracksLookups_def
proof (intro allI impI)
  fix s r s'
  assume run: "branchDateTask e d b s = (r, s')"
  define f where "f = (''git fetch origin '' @ b, d)"
  define sh where "sh = (''git show -s --format=%ct origin/'' @ b, d)"
  have kinds: "isFetchCommand f" "\<not> isShowCommand f" "\<not> isDeleteCommand f"
      "isShowCommand sh" "\<not> isFetchCommand sh" "\<not> isDeleteCommand sh"
    unfolding f_def sh_def by (rule command_kinds)+
  have run': "(r, s') =
      (let fo = shell e (issued s) f; so = shell e (issued s @ [f]) sh
       in if exitCode fo \<noteq> 0
          then (Inl (ShellError (fst f) (exitCode fo)), s\<lparr>issued := issued s @ [f]\<rparr>)
          else if exitCode so \<noteq> 0
          then (Inl (ShellError (fst sh) (exitCode so)), s\<lparr>issued := issued s @ [f, sh]\<rparr>)
          else (case dateOfTimestamp e (trim (stdout so)) of
                  None \<Rightarrow>
                    (Inl (Error (''Failed to extract numeric timestamp from ''
                                  @ [CHR 0x22] @ trim (stdout so) @ [CHR 0x22])),
                     s\<lparr>issued := issued s @ [f, sh]\<rparr>)
                | Some dt \<Rightarrow>
                    if js_falsy (NumberOfDate dt)
                    then (Inl (Error (''Failed to get last commit date for branch '' @ b @ '': '')),
                          s\<lparr>issued := issued s @ [f, sh]\<rparr>)
                    else (Inr \<lparr>name = b, lastCommitDate = dt\<rparr>,
                          s\<lparr>issued := issued s @ [f, sh]\<rparr>)))"
    using run unfolding branchDateTask_run f_def sh_def Let_def by simp
  have ext: "issued s' = issued s @ [f] \<or> issued s' = issued s @ [f, sh]" "asked s' = asked s"
    using run' by (auto simp: Let_def split: if_splits option.splits)
  have tracked: "isl r" if i: "length (issued s) \<le> i" "i < length (issued s')"
      "lookupFailedAt e (issued s') i" for i
  proof (rule ccontr)
    assume "\<not> isl r"
    then obtain dt where ok: "exitCode (shell e (issued s) f) = 0"
        "exitCode (shell e (issued s @ [f]) sh) = 0"
        "dateOfTimestamp e (trim (stdout (shell e (issued s @ [f]) sh))) = Some dt"
        "\<not> js_falsy (NumberOfDate dt)" and log: "issued s' = issued s @ [f, sh]"
      using run' by (auto simp: Let_def split: if_splits option.splits)
    have "i = length (issued s) \<or> i = Suc (length (issued s))"
      using i(1,2) log by auto
    then show False
    proof
      assume "i = length (issued s)"
      then show False
        using i(3) log ok kinds by (simp add: lookupFailedAt_def outputAt_def Let_def)
    next
      assume "i = Suc (length (issued s))"
      then show False
        using i(3) log ok kinds
        by (simp add: lookupFailedAt_def outputAt_def Let_def unusableTimestamp_def nth_append)
    qed
  qed
  have "\<exists>ext. issued s' = issued s @ ext \<and> (\<forall>c\<in>set ext. \<not> isDeleteCommand c)"
    using ext(1) kinds by auto
  then show "(\<exists>ext. issued s' = issued s @ ext \<and> (\<forall>c\<in>set ext. \<not> isDeleteCommand c))
        \<and> asked s' = asked s
        \<and> ((\<exists>i. length (issued s) \<le> i \<and> i < length (issued s')
                 \<and> lookupFailedAt e (issued s') i) \<longrightarrow> isl r)"
    using ext(2) tracked by blast
qed

lemma startAll_tracks:
  assumes f: "\<And>x. tracksLookups e (f x)"
  shows "startAll f xs s = (rs, s') \<Longrightarrow>
     (\<exists>ext. issued s' = issued s @ ext \<and> (\<forall>c\<in>set ext. \<not> isDeleteCommand c))
     \<and> asked s' = asked s
     \<and> ((\<exists>i. length (issued s) \<le> i \<and> i < length (issued s')
             \<and> lookupFailedAt e (issued s') i) \<longrightarrow> (\<exists>r\<in>set rs. isl r))"
proof (induction xs arbitrary: s rs s')
  case Nil
  then show ?case by simp
next
  case (Cons x xs)
  obtain r1 s1 where t1: "f x s = (r1, s1)" by (cases "f x s")
  obtain rs2 s2 where t2: "startAll f xs s1 = (rs2, s2)" by (cases "startAll f xs s1")
  have res: "rs = r1 # rs2" "s' = s2" using Cons.prems t1 t2 by simp_all
  from f [unfolded tracksLookups_def, rule_format, OF t1]
  obtain ext1 where e1: "issued s1 = issued s @ ext1" "\<forall>c\<in>set ext1. \<not> isDeleteCommand c"
      and a1: "asked s1 = asked s"
      and l1: "(\<exists>i. length (issued s) \<le> i \<and> i < length (issued s1)
                 \<and> lookupFailedAt e (issued s1) i) \<longrightarrow> isl r1"
    by blast
  from Cons.IH [OF t2]
  obtain ext2 where e2: "issued s2 = issued s1 @ ext2" "\<forall>c\<in>set ext2. \<not> isDeleteCommand c"
      and a2: "asked s2 = asked s1"
      and l2: "(\<exists>i. length (issued s1) \<le> i \<and> i < length (issued s2)
                 \<and> lookupFailedAt e (issued s2) i) \<longrightarrow> (\<exists>r\<in>set rs2. isl r)"
    by blast
  have ext: "issued s' = issued s @ (ext1 @ ext2)" "\<forall>c\<in>set (ext1 @ ext2). \<not> isDeleteCommand c"
    using e1 e2 res by auto
  have "\<exists>r\<in>set rs. isl r" if i: "length (issued s) \<le> i" "i < length (issued s')"
      "lookupFailedAt e (issued s') i" for i
  proof (cases "i < length (issued s1)")
    case True
    then have "lookupFailedAt e (issued s1) i"
      using i(3) e2(1) res by (simp add: lookupFailedAt_append)
    then have "isl r1" using l1 i(1) True by blast
    then show ?thesis using res by simp
  next
    case False
    then have "\<exists>r\<in>set rs2. isl r" using l2 i res by auto
    then show ?thesis using res by auto
  qed
  then show ?case using ext a1 a2 res by metis
qed

lemma tracksLookups_Promise_all:
  assumes "\<And>x. tracksLookups e (f x)"
  shows "tracksLookups e (Promise_all f xs)"
  unfolding tracksLookups_def
proof (intro allI impI)
  fix s r s'
  assume run: "Promise_all f xs s = (r, s')"
  obtain rs where rs: "startAll f xs s = (rs, s')" "r = settle rs"
    using run by (auto simp: Promise_all_def split: prod.splits)
  show "(\<exists>ext. issued s' = issued s @ ext \<and> (\<forall>c\<in>set ext. \<not> isDeleteCommand c))
        \<and> asked s' = asked s
        \<and> ((\<exists>i. length (issued s) \<le> i \<and> i < length (issued s')
                 \<and> lookupFailedAt e (issued s') i) \<longrightarrow> isl r)"
    using startAll_tracks [of e f, OF assms rs(1)] rs(2) by (simp add: isl_settle)
qed

lemma tracksLookups_getBranchDates: "tracksLookups e (getBranchDates e d names)"
  unfolding getBranchDates_def
  by (intro tracksLookups_Promise_all tracksLookups_branchDateTask)

lemma tracksLookups_classifyBranches: "tracksLookups e (classifyBranches e d)"
  unfolding classifyBranches_def Let_def
  by (intro tracksLookups_await tracksLookups_pruneRemote tracksLookups_getAllRemoteBranches
      tracksLookups_getAllMergedRemoteBranches tracksLookups_getBranchDates
      tracksLookups_resolve)

text \<open>A resolved \<open>Promise_all\<close> holds one result for every element, in order.\<close>

lemma startAll_settle:
  assumes f: "\<And>x s v s'. f x s = (Inr v, s') \<Longrightarrow> P x v"
  shows "startAll f xs s = (rs, s') \<Longrightarrow> settle rs = Inr vs \<Longrightarrow> list_all2 P xs vs"
proof (induction xs arbitrary: s rs s' vs)
  case Nil
  then show ?case by auto
next
  case (Cons x xs)
  obtain r1 s1 where t1: "f x s = (r1, s1)" by (cases "f x s")
  obtain rs2 s2 where t2: "startAll f xs s1 = (rs2, s2)" by (cases "startAll f xs s1")
  have res: "rs = r1 # rs2" using Cons.prems(1) t1 t2 by simp
  then obtain v vs2 where v: "r1 = Inr v" "settle rs2 = Inr vs2" "vs = v # vs2"
    using Cons.prems(2) by (cases r1) (auto split: sum.splits)
  have "P x v" using f t1 v(1) by blast
  moreover have "list_all2 P xs vs2" using Cons.IH [OF t2 v(2)] .
  ultimately show ?case using v(3) by simp
qed

lemma getBranchDates_names:
  assumes "getBranchDates e d names s = (Inr bs, s')"
  shows "map name bs = names"
proof -
  obtain rs where rs: "startAll (branchDateTask e d) names s = (rs, s')" "settle rs = Inr bs"
    using assms by (auto simp: getBranchDates_def Promise_all_def split: prod.splits)
  have "list_all2 (\<lambda>b v. name v = b) names bs"
    using startAll_settle [of "branchDateTask e d" "\<lambda>b v. name v = b", OF _ rs]
      branchDateTask_name by blast
  then show ?thesis
    by (induction names bs rule: list_all2_induct) simp_all
qed

section \<open>Properties of a whole run\<close>

text \<open>The stages behind a pair of classified lists.\<close>

lemma classifyBranches_stages:
  assumes "classifyBranches e d s = (Inr (S, M), s')"
  shows "\<exists>allRemote allMerged remoteDates mergedDates s3 s4.
           getBranchDates e d (filterOutKeyBranchNames allRemote) s3 = (Inr remoteDates, s4)
         \<and> getBranchDates e d (filterOutKeyBranchNames allMerged) s4 = (Inr mergedDates, s')
         \<and> S = filterToBranchesModifiedSinceDate remoteDates (staleBranchDate e)
         \<and> M = filterToBranchesModifiedSinceDate
                 (filter (\<lambda>branch. name branch \<notin> name ` set S) mergedDates)
                 (mergedBranchDate e)"
proof -
  obtain r1 s1 where p: "pruneRemote e d s = (r1, s1)" by (cases "pruneRemote e d s")
  obtain r2 s2 where a: "getAllRemoteBranches e d s1 = (r2, s2)"
    by (cases "getAllRemoteBranches e d s1")
  obtain r3 s3 where m: "getAllMergedRemoteBranches e d s2 = (r3, s3)"
    by (cases "getAllMergedRemoteBranches e d s2")
  from assms p obtain u where r1: "r1 = Inr u"
    by (cases r1) (simp_all add: classifyBranches_def await_def)
  from assms p r1 a obtain allRemote where r2: "r2 = Inr allRemote"
    by (cases r2) (simp_all add: classifyBranches_def await_def)
  from assms p r1 a r2 m obtain allMerged where r3: "r3 = Inr allMerged"
    by (cases r3) (simp_all add: classifyBranches_def await_def Let_def)
  obtain r4 s4 where g1: "getBranchDates e d (filterOutKeyBranchNames allRemote) s3 = (r4, s4)"
    by (cases "getBranchDates e d (filterOutKeyBranchNames allRemote) s3")
  from assms p r1 a r2 m r3 g1 obtain remoteDates where r4: "r4 = Inr remoteDates"
    by (cases r4) (simp_all add: classifyBranches_def await_def Let_def)
  obtain r5 s5 where g2: "getBranchDates e d (filterOutKeyBranchNames allMerged) s4 = (r5, s5)"
    by (cases "getBranchDates e d (filterOutKeyBranchNames allMerged) s4")
  from assms p r1 a r2 m r3 g1 r4 g2 obtain mergedDates where r5: "r5 = Inr mergedDates"
    by (cases r5) (simp_all add: classifyBranches_def await_def Let_def)
  from assms p r1 a r2 m r3 g1 r4 g2 r5
  have "S = filterToBranchesModifiedSinceDate remoteDates (staleBranchDate e)
      \<and> M = filterToBranchesModifiedSinceDate
                 (filter (\<lambda>branch. name branch \<notin> name ` set S) mergedDates)
                 (mergedBranchDate e) \<and> s' = s5"
    by (auto simp: classifyBranches_def await_def Let_def resolve_def)
  then show ?thesis using g1 g2 r4 r5 by blast
qed

lemma classified_disjoint:
  assumes "classifyBranches e d s = (Inr (S, M), s')"
  shows "name ` set S \<inter> name ` set M = {}"
proof -
  from classifyBranches_stages [OF assms]
  obtain mergedDates where
    "M = filterToBranchesModifiedSinceDate
           (filter (\<lambda>branch. name branch \<notin> name ` set S) mergedDates) (mergedBranchDate e)"
    by blast
  then have m: "\<forall>b\<in>set M. name b \<notin> name ` set S"
    by (simp add: classifier_set)
  show ?thesis
  proof (rule ccontr)
    assume "name ` set S \<inter> name ` set M \<noteq> {}"
    then obtain n where n: "n \<in> name ` set S" "n \<in> name ` set M" by blast
    then obtain b where "b \<in> set M" "n = name b" by blast
    then show False using m n(1) by blast
  qed
qed

lemma filterOutKeyBranchNames_set:
  "set (filterOutKeyBranchNames ns) = {n \<in> set ns. n \<notin> set ignoreTheseBranches}"
  by (auto simp: filterOutKeyBranchNames_def)

lemma classified_not_protected:
  assumes "classifyBranches e d s = (Inr (S, M), s')"
  shows "\<forall>b\<in>set S \<union> set M. name b \<notin> set ignoreTheseBranches"
proof -
  from classifyBranches_stages [OF assms]
  obtain allRemote allMerged remoteDates mergedDates s3 s4 where
    r: "getBranchDates e d (filterOutKeyBranchNames allRemote) s3 = (Inr remoteDates, s4)"
    and m: "getBranchDates e d (filterOutKeyBranchNames allMerged) s4 = (Inr mergedDates, s')"
    and S: "S = filterToBranchesModifiedSinceDate remoteDates (staleBranchDate e)"
    and M: "M = filterToBranchesModifiedSinceDate
                 (filter (\<lambda>branch. name branch \<notin> name ` set S) mergedDates)
                 (mergedBranchDate e)"
    by blast
  have rn: "name ` set remoteDates = set (filterOutKeyBranchNames allRemote)"
    using getBranchDates_names [OF r] by (metis set_map)
  have mn: "name ` set mergedDates = set (filterOutKeyBranchNames allMerged)"
    using getBranchDates_names [OF m] by (metis set_map)
  have "name ` set S \<subseteq> name ` set remoteDates"
    unfolding S by (rule classifier_names)
  moreover have "name ` set M \<subseteq> name ` set mergedDates"
    unfolding M by (auto simp: classifier_set)
  ultimately have "\<forall>b\<in>set S \<union> set M. name b \<in> set (filterOutKeyBranchNames allRemote)
      \<union> set (filterOutKeyBranchNames allMerged)"
    using rn mn by blast
  then show ?thesis
    by (auto simp: filterOutKeyBranchNames_set)
qed

text \<open>The deleter issues every command of the batch and rejects when one of them fails.\<close>

lemma deleteBranch_run:
  "deleteBranch e d n s =
     (if exitCode (shell e (issued s) (deleteCommand n, d)) \<noteq> 0
      then Inl (ShellError (deleteCommand n)
                  (exitCode (shell e (issued s) (deleteCommand n, d))))
      else Inr (),
      s\<lparr>issued := issued s @ [(deleteCommand n, d)]\<rparr>)"
  by (simp add: deleteBranch_def await_def runShellCommand_def Let_def resolve_def)

lemma startAll_delete:
  "startAll (\<lambda>branch. deleteBranch e d (name branch)) bs s = (rs, s') \<Longrightarrow>
     issued s' = issued s @ deletionsFor d bs \<and> asked s' = asked s
     \<and> ((\<exists>r\<in>set rs. isl r)
          \<longleftrightarrow> (\<exists>i<length bs. exitCode (outputAt e (issued s') (length (issued s) + i)) \<noteq> 0))"
proof (induction bs arbitrary: s rs s')
  case Nil
  then show ?case by (simp add: deletionsFor_def)
next
  case (Cons b bs)
  let ?c = "(deleteCommand (name b), d)"
  let ?s1 = "s\<lparr>issued := issued s @ [?c]\<rparr>"
  obtain rs2 s2 where t2: "startAll (\<lambda>branch. deleteBranch e d (name branch)) bs ?s1 = (rs2, s2)"
    by (cases "startAll (\<lambda>branch. deleteBranch e d (name branch)) bs ?s1")
  have t1: "deleteBranch e d (name b) s
      = (if exitCode (shell e (issued s) ?c) \<noteq> 0
         then Inl (ShellError (deleteCommand (name b)) (exitCode (shell e (issued s) ?c)))
         else Inr (), ?s1)"
    by (rule deleteBranch_run)
  have res: "rs = (if exitCode (shell e (issued s) ?c) \<noteq> 0
                   then Inl (ShellError (deleteCommand (name b)) (exitCode (shell e (issued s) ?c)))
                   else Inr ()) # rs2" "s' = s2"
    using Cons.prems t1 t2 by simp_all
  from Cons.IH [OF t2]
  have log2: "issued s2 = issued s @ ?c # deletionsFor d bs" and a2: "asked s2 = asked s"
    and f2: "(\<exists>r\<in>set rs2. isl r)
       \<longleftrightarrow> (\<exists>i<length bs. exitCode (outputAt e (issued s2) (Suc (length (issued s)) + i)) \<noteq> 0)"
    by simp_all
  have head: "outputAt e (issued s2) (length (issued s)) = shell e (issued s) ?c"
    unfolding log2 by (rule outputAt_last)
  have "(\<exists>r\<in>set rs. isl r)
      \<longleftrightarrow> exitCode (shell e (issued s) ?c) \<noteq> 0 \<or> (\<exists>r\<in>set rs2. isl r)"
    using res(1) by auto
  also have "\<dots> \<longleftrightarrow> exitCode (outputAt e (issued s2) (length (issued s) + 0)) \<noteq> 0
      \<or> (\<exists>i<length bs. exitCode (outputAt e (issued s2) (length (issued s) + Suc i)) \<noteq> 0)"
    using head f2 by simp
  also have "\<dots> \<longleftrightarrow> (\<exists>i<length (b # bs).
      exitCode (outputAt e (issued s2) (length (issued s) + i)) \<noteq> 0)"
    by (auto simp: less_Suc_eq_0_disj)
  finally show ?case
    using log2 a2 res(2) by (simp add: deletionsFor_def)
qed

lemma deleteBranches_run:
  assumes "deleteBranches e d bs s = (r, s')"
  shows "issued s' = issued s @ deletionsFor d bs" and "asked s' = asked s"
    and "isl r
          \<longleftrightarrow> (\<exists>i<length bs. exitCode (outputAt e (issued s') (length (issued s) + i)) \<noteq> 0)"
proof -
  obtain rs where rs: "startAll (\<lambda>branch. deleteBranch e d (name branch)) bs s = (rs, s')"
      and r: "isl r = isl (settle rs)"
    using assms
    by (auto simp: deleteBranches_def await_def Promise_all_def resolve_def
        split: prod.splits sum.splits)
  from startAll_delete [OF rs] r
  show "issued s' = issued s @ deletionsFor d bs" and "asked s' = asked s"
    and "isl r
          \<longleftrightarrow> (\<exists>i<length bs. exitCode (outputAt e (issued s') (length (issued s) + i)) \<noteq> 0)"
    by (simp_all add: isl_settle)
qed

lemma deletions_of_batch: "filter isDeleteCommand (deletionsFor d bs) = deletionsFor d bs"
  by (rule filter_True) (auto simp: deletionsFor_def command_kinds)

text \<open>The three ways a run ends.\<close>

lemma classifyBranches_initial:
  assumes "classifyBranches e d initial = (r, s1)"
  shows "asked s1 = None" and "\<forall>c\<in>set (issued s1). \<not> isDeleteCommand c"
    and "(\<exists>i<length (issued s1). lookupFailedAt e (issued s1) i) \<longrightarrow> isl r"
  using tracksLookups_classifyBranches [of e d, unfolded tracksLookups_def, rule_format, OF assms]
  by (auto simp: initial_def)

lemma script_rejected:
  assumes "classifyBranches e d initial = (Inl err, s1)"
  shows "script e d = (1, s1)"
  using assms by (simp add: script_def deleteStaleAndMergedBranches_def await_def)

lemma script_declined:
  assumes "classifyBranches e d initial = (Inr (S, M), s1)" and "userInput e \<noteq> ''yes''"
  shows "script e d = (0, s1\<lparr>asked := Some (S, M)\<rparr>)"
  using assms
  by (simp add: script_def deleteStaleAndMergedBranches_def await_def waitForUserToAccept_def
      askQuestion_def resolve_def)

lemma script_accepted:
  assumes "classifyBranches e d initial = (Inr (S, M), s1)" and "userInput e = ''yes''"
    and "deleteBranches e d (S @ M) (s1\<lparr>asked := Some (S, M)\<rparr>) = (r, s2)"
  shows "script e d = (if isl r then 1 else 0, s2)"
  using assms
  by (cases r)
    (simp_all add: script_def deleteStaleAndMergedBranches_def await_def
      waitForUserToAccept_def askQuestion_def resolve_def)

text \<open>A run that showed the prompt got its two lists from the classification.\<close>

lemma prompt_shows_classification:
  assumes "asked (snd (script e d)) = Some (S, M)"
  shows "\<exists>s1. classifyBranches e d initial = (Inr (S, M), s1)"
proof -
  obtain r s1 where c: "classifyBranches e d initial = (r, s1)"
    by (cases "classifyBranches e d initial")
  show ?thesis
  proof (cases r)
    case (Inl err)
    then have "script e d = (1, s1)" using c script_rejected by simp
    then have "asked (snd (script e d)) = None"
      using classifyBranches_initial(1) [OF c] by simp
    then show ?thesis using assms by simp
  next
    case (Inr p)
    obtain S' M' where p: "p = (S', M')" by (cases p)
    have c': "classifyBranches e d initial = (Inr (S', M'), s1)" using c Inr p by simp
    have "asked (snd (script e d)) = Some (S', M')"
    proof (cases "userInput e = ''yes''")
      case False
      then show ?thesis using script_declined [OF c'] by simp
    next
      case True
      obtain r2 s2 where del: "deleteBranches e d (S' @ M') (s1\<lparr>asked := Some (S', M')\<rparr>) = (r2, s2)"
        by (cases "deleteBranches e d (S' @ M') (s1\<lparr>asked := Some (S', M')\<rparr>)")
      show ?thesis
        using script_accepted [OF c' True del] deleteBranches_run(2) [OF del] by simp
    qed
    then show ?thesis using assms c' by simp
  qed
qed

lemma length_deletionsFor: "length (deletionsFor d bs) = length bs"
  by (simp add: deletionsFor_def)

lemma deletionsFor_nth:
  "j < length bs \<Longrightarrow> deletionsFor d bs ! j = (deleteCommand (name (bs ! j)), d)"
  by (simp add: deletionsFor_def)

lemma deletionsFor_empty: "(deletionsFor d bs = []) = (bs = [])"
  by (simp add: deletionsFor_def)

lemma no_lookup_among_deletions:
  assumes "length before \<le> i" and "i < length (before @ deletionsFor d bs)"
  shows "\<not> lookupFailedAt e (before @ deletionsFor d bs) i"
proof -
  have j: "i - length before < length bs"
    using assms by (simp add: length_deletionsFor)
  have "(before @ deletionsFor d bs) ! i = (deleteCommand (name (bs ! (i - length before))), d)"
    using assms(1) j by (simp add: nth_append deletionsFor_nth)
  then show ?thesis
    by (simp add: lookupFailedAt_def Let_def command_kinds)
qed

text \<open>What a run that showed the prompt did before it and after it.\<close>

lemma prompted_run:
  assumes "asked (snd (script e d)) = Some (S, M)"
  shows "\<exists>before. (\<forall>c\<in>set before. \<not> isDeleteCommand c)
     \<and> (userInput e \<noteq> ''yes'' \<longrightarrow> issued (snd (script e d)) = before \<and> fst (script e d) = 0)
     \<and> (userInput e = ''yes'' \<longrightarrow>
           issued (snd (script e d)) = before @ deletionsFor d (S @ M)
         \<and> fst (script e d)
             = (if \<exists>j<length (S @ M).
                      exitCode (outputAt e (before @ deletionsFor d (S @ M)) (length before + j)) \<noteq> 0
                then 1 else 0))"
proof -
  obtain s1 where c: "classifyBranches e d initial = (Inr (S, M), s1)"
    using prompt_shows_classification [OF assms] by blast
  have nodel: "\<forall>c\<in>set (issued s1). \<not> isDeleteCommand c"
    using classifyBranches_initial(2) [OF c] .
  have no: "userInput e \<noteq> ''yes'' \<longrightarrow> issued (snd (script e d)) = issued s1 \<and> fst (script e d) = 0"
    using script_declined [OF c] by simp
  have yes: "userInput e = ''yes'' \<longrightarrow>
           issued (snd (script e d)) = issued s1 @ deletionsFor d (S @ M)
         \<and> fst (script e d)
             = (if \<exists>j<length (S @ M).
                      exitCode (outputAt e (issued s1 @ deletionsFor d (S @ M))
                                  (length (issued s1) + j)) \<noteq> 0
                then 1 else 0)"
  proof
    assume y: "userInput e = ''yes''"
    obtain r2 s2 where del: "deleteBranches e d (S @ M) (s1\<lparr>asked := Some (S, M)\<rparr>) = (r2, s2)"
      by (cases "deleteBranches e d (S @ M) (s1\<lparr>asked := Some (S, M)\<rparr>)")
    have log: "issued s2 = issued s1 @ deletionsFor d (S @ M)"
      using deleteBranches_run(1) [OF del] by simp
    have "isl r2 \<longleftrightarrow> (\<exists>j<length (S @ M).
        exitCode (outputAt e (issued s1 @ deletionsFor d (S @ M)) (length (issued s1) + j)) \<noteq> 0)"
      using deleteBranches_run(3) [OF del] log by simp
    then show "issued (snd (script e d)) = issued s1 @ deletionsFor d (S @ M)
         \<and> fst (script e d)
             = (if \<exists>j<length (S @ M).
                      exitCode (outputAt e (issued s1 @ deletionsFor d (S @ M))
                                  (length (issued s1) + j)) \<noteq> 0
                then 1 else 0)"
      using script_accepted [OF c y del] log by simp
  qed
  show ?thesis using nodel no yes by blast
qed

lemma deletion_failure_in_batch:
  assumes "\<forall>c\<in>set before. \<not> isDeleteCommand c"
  shows "someDeletionFailed e (before @ deletionsFor d bs)
     \<longleftrightarrow> (\<exists>j<length bs.
            exitCode (outputAt e (before @ deletionsFor d bs) (length before + j)) \<noteq> 0)"
proof
  let ?cmds = "before @ deletionsFor d bs"
  assume "someDeletionFailed e ?cmds"
  then obtain i where i: "i < length ?cmds" "isDeleteCommand (?cmds ! i)"
      "exitCode (outputAt e ?cmds i) \<noteq> 0"
    by (auto simp: someDeletionFailed_def list_ex_iff)
  have "\<not> i < length before"
    using i(2) assms by (auto simp: nth_append)
  then have "i - length before < length bs" "i = length before + (i - length before)"
    using i(1) by (simp_all add: length_deletionsFor)
  then show "\<exists>j<length bs. exitCode (outputAt e ?cmds (length before + j)) \<noteq> 0"
    using i(3) by metis
next
  let ?cmds = "before @ deletionsFor d bs"
  assume "\<exists>j<length bs. exitCode (outputAt e ?cmds (length before + j)) \<noteq> 0"
  then obtain j where j: "j < length bs" "exitCode (outputAt e ?cmds (length before + j)) \<noteq> 0"
    by blast
  have "length before + j < length ?cmds"
    using j(1) by (simp add: length_deletionsFor)
  moreover have "isDeleteCommand (?cmds ! (length before + j))"
    using j(1) by (simp add: deletionsFor_nth command_kinds)
  ultimately have "\<exists>i\<in>set [0..<length ?cmds].
      isDeleteCommand (?cmds ! i) \<and> exitCode (outputAt e ?cmds i) \<noteq> 0"
    using j(2) by (intro bexI [of _ "length before + j"]) simp_all
  then show "someDeletionFailed e ?cmds"
    by (simp add: someDeletionFailed_def list_ex_iff)
qed

section \<open>Runs of the example worlds\<close>

lemma run_aged_scenario:
  "script (exampleWorld scenarioRemote bothMerged agedDates [] ''Yes'') ''/repo''
     = (0, \<lparr>issued =
              [(''git remote prune origin'', ''/repo''),
               (''git ls-remote --heads origin'', ''/repo''),
               (''git branch -r --merged'', ''/repo''),
               (''git fetch origin feature-a'', ''/repo''),
               (''git show -s --format=%ct origin/feature-a'', ''/repo''),
               (''git fetch origin feature-b'', ''/repo''),
               (''git show -s --format=%ct origin/feature-b'', ''/repo''),
               (''git fetch origin feature-a'', ''/repo''),
               (''git show -s --format=%ct origin/feature-a'', ''/repo''),
               (''git fetch origin feature-b'', ''/repo''),
               (''git show -s --format=%ct origin/feature-b'', ''/repo'')],
            asked = Some ([\<lparr>name = ''feature-a'', lastCommitDate = Date 1765440000000\<rparr>],
                          [\<lparr>name = ''feature-b'', lastCommitDate = Date 1798272000000\<rparr>])\<rparr>)"
  by code_simp

lemma run_failed_fetch:
  "script (exampleWorld scenarioRemote scenarioMerged scenarioDates
             [''git fetch origin feature-b''] ''yes'') ''/repo''
     = (1, \<lparr>issued =
              [(''git remote prune origin'', ''/repo''),
               (''git ls-remote --heads origin'', ''/repo''),
               (''git branch -r --merged'', ''/repo''),
               (''git fetch origin feature-a'', ''/repo''),
               (''git show -s --format=%ct origin/feature-a'', ''/repo''),
               (''git fetch origin feature-b'', ''/repo'')],
            asked = None\<rparr>)"
  by code_simp

lemma run_negative_timestamp:
  "script (exampleWorld scenarioRemote scenarioMerged negativeDates [] ''yes'') ''/repo''
     = (0, \<lparr>issued =
              [(''git remote prune origin'', ''/repo''),
               (''git ls-remote --heads origin'', ''/repo''),
               (''git branch -r --merged'', ''/repo''),
               (''git fetch origin feature-a'', ''/repo''),
               (''git show -s --format=%ct origin/feature-a'', ''/repo''),
               (''git fetch origin feature-b'', ''/repo''),
               (''git show -s --format=%ct origin/feature-b'', ''/repo''),
               (''git fetch origin feature-a'', ''/repo''),
               (''git show -s --format=%ct origin/feature-a'', ''/repo''),
               (''git push origin --delete feature-a'', ''/repo'')],
            asked = Some ([\<lparr>name = ''feature-a'', lastCommitDate = Date (- 5000)\<rparr>], [])\<rparr>)"
  by code_simp

lemma run_failed_deletion:
  "script (exampleWorld widerRemote onlyMainMerged widerDates
             [''git push origin --delete feature-c''] ''yes'') ''/repo''
     = (1, \<lparr>issued =
              [(''git remote prune origin'', ''/repo''),
               (''git ls-remote --heads origin'', ''/repo''),
               (''git branch -r --merged'', ''/repo''),
               (''git fetch origin feature-a'', ''/repo''),
               (''git show -s --format=%ct origin/feature-a'', ''/repo''),
               (''git fetch origin feature-b'', ''/repo''),
               (''git show -s --format=%ct origin/feature-b'', ''/repo''),
               (''git fetch origin feature-c'', ''/repo''),
               (''git show -s --format=%ct origin/feature-c'', ''/repo''),
               (''git fetch origin feature-d'', ''/repo''),
               (''git show -s --format=%ct origin/feature-d'', ''/repo''),
               (''git push origin --delete feature-a'', ''/repo''),
               (''git push origin --delete feature-c'', ''/repo''),
               (''git push origin --delete feature-d'', ''/repo'')],
            asked = Some ([\<lparr>name = ''feature-a'', lastCommitDate = Date 1765440000000\<rparr>,
                           \<lparr>name = ''feature-c'', lastCommitDate = Date 1782720000000\<rparr>,
                           \<lparr>name = ''feature-d'', lastCommitDate = Date 1791360000000\<rparr>], [])\<rparr>)"
  by code_simp

section \<open>From the listings to the deletions\<close>

text \<open>
  C2. Whatever the two listing queries and the date queries return, the names of the
  stale list are taken out of the merged candidates before the merged threshold is
  applied: the merged list is the classification of candidates that bear no stale name.
  So no branch name is in both lists, of the classification and of the prompt of a run,
  also for a branch that is merged and older than the merged threshold.
\<close>

theorem stale_names_never_merged:
  "(classifyBranches e d s = (Inr (S, M), s') \<longrightarrow>
      (\<exists>mergedDates.
          M = filterToBranchesModifiedSinceDate
                (filter (\<lambda>branch. name branch \<notin> name ` set S) mergedDates)
                (mergedBranchDate e))
      \<and> name ` set S \<inter> name ` set M = {})
   \<and> (asked (snd (script e d)) = Some (S, M) \<longrightarrow> name ` set S \<inter> name ` set M = {})"
proof (intro conjI impI)
  assume c: "classifyBranches e d s = (Inr (S, M), s')"
  show "\<exists>mergedDates.
          M = filterToBranchesModifiedSinceDate
                (filter (\<lambda>branch. name branch \<notin> name ` set S) mergedDates)
                (mergedBranchDate e)"
    using classifyBranches_stages [OF c] by blast
  show "name ` set S \<inter> name ` set M = {}"
    using classified_disjoint [OF c] .
next
  assume "asked (snd (script e d)) = Some (S, M)"
  then obtain s1 where "classifyBranches e d initial = (Inr (S, M), s1)"
    using prompt_shows_classification by blast
  then show "name ` set S \<inter> name ` set M = {}"
    by (rule classified_disjoint)
qed

theorem stale_names_never_merged_witness:
  "asked (snd (script (exampleWorld scenarioRemote bothMerged agedDates [] ''Yes'') ''/repo''))
     = Some ([\<lparr>name = ''feature-a'', lastCommitDate = Date 1765440000000\<rparr>],
             [\<lparr>name = ''feature-b'', lastCommitDate = Date 1798272000000\<rparr>])
   \<and> name ` set [\<lparr>name = ''feature-a'', lastCommitDate = Date 1765440000000\<rparr>]
       \<inter> name ` set [\<lparr>name = ''feature-b'', lastCommitDate = Date 1798272000000\<rparr>] = {}"
proof -
  have h: "asked (snd (script (exampleWorld scenarioRemote bothMerged agedDates [] ''Yes'') ''/repo''))
     = Some ([\<lparr>name = ''feature-a'', lastCommitDate = Date 1765440000000\<rparr>],
             [\<lparr>name = ''feature-b'', lastCommitDate = Date 1798272000000\<rparr>])"
    by (simp add: run_aged_scenario)
  from stale_names_never_merged
    [of "exampleWorld scenarioRemote bothMerged agedDates [] ''Yes''" "''/repo''" initial
        "[\<lparr>name = ''feature-a'', lastCommitDate = Date 1765440000000\<rparr>]"
        "[\<lparr>name = ''feature-b'', lastCommitDate = Date 1798272000000\<rparr>]" initial]
  have "name ` set [\<lparr>name = ''feature-a'', lastCommitDate = Date 1765440000000\<rparr>]
       \<inter> name ` set [\<lparr>name = ''feature-b'', lastCommitDate = Date 1798272000000\<rparr>] = {}"
    using h by blast
  then show ?thesis using h by blast
qed

text \<open>
  C6. None of the protected names \<^verbatim>\<open>main\<close>, \<^verbatim>\<open>master\<close>, \<^verbatim>\<open>staging\<close>, \<^verbatim>\<open>production\<close> is
  the name of a record of the stale list or of the merged list, whatever the listings
  and the commit dates are; a name is protected exactly when it is equal, as a string,
  to one of the four.
\<close>

theorem protected_names_never_classified:
  "(classifyBranches e d s = (Inr (S, M), s') \<longrightarrow>
      (\<forall>b\<in>set S \<union> set M. name b \<notin> {''main'', ''master'', ''staging'', ''production''}))
   \<and> (asked (snd (script e d)) = Some (S, M) \<longrightarrow>
      (\<forall>b\<in>set S \<union> set M. name b \<notin> {''main'', ''master'', ''staging'', ''production''}))
   \<and> filterOutKeyBranchNames ns
       = filter (\<lambda>n. n \<noteq> ''main'' \<and> n \<noteq> ''master'' \<and> n \<noteq> ''staging'' \<and> n \<noteq> ''production'') ns"
proof -
  have prot: "set ignoreTheseBranches = {''main'', ''master'', ''staging'', ''production''}"
    unfolding ignoreTheseBranches_def by (simp only: list.set)
  have a: "\<forall>b\<in>set S \<union> set M. name b \<notin> {''main'', ''master'', ''staging'', ''production''}"
    if "classifyBranches e d s0 = (Inr (S, M), s1)" for s0 s1
    using classified_not_protected [OF that] unfolding prot .
  have b: "\<forall>b\<in>set S \<union> set M. name b \<notin> {''main'', ''master'', ''staging'', ''production''}"
    if "asked (snd (script e d)) = Some (S, M)"
    using prompt_shows_classification [OF that] a by blast
  have "(\<lambda>branchName. branchName \<notin> set ignoreTheseBranches)
      = (\<lambda>n. n \<noteq> ''main'' \<and> n \<noteq> ''master'' \<and> n \<noteq> ''staging'' \<and> n \<noteq> ''production'')"
    unfolding prot by (rule ext) blast
  then have c: "filterOutKeyBranchNames ns
       = filter (\<lambda>n. n \<noteq> ''main'' \<and> n \<noteq> ''master'' \<and> n \<noteq> ''staging'' \<and> n \<noteq> ''production'') ns"
    by (simp only: filterOutKeyBranchNames_def)
  show ?thesis using a b c by blast
qed

theorem protected_names_never_classified_witness:
  "asked (snd (script (exampleWorld scenarioRemote bothMerged agedDates [] ''Yes'') ''/repo''))
     = Some ([\<lparr>name = ''feature-a'', lastCommitDate = Date 1765440000000\<rparr>],
             [\<lparr>name = ''feature-b'', lastCommitDate = Date 1798272000000\<rparr>])
   \<and> filterOutKeyBranchNames [''main'', ''Main'', ''main2'', ''production'', ''dev'']
       = [''Main'', ''main2'', ''dev'']"
proof -
  have h: "asked (snd (script (exampleWorld scenarioRemote bothMerged agedDates [] ''Yes'') ''/repo''))
     = Some ([\<lparr>name = ''feature-a'', lastCommitDate = Date 1765440000000\<rparr>],
             [\<lparr>name = ''feature-b'', lastCommitDate = Date 1798272000000\<rparr>])"
    by (simp add: run_aged_scenario)
  have "filterOutKeyBranchNames [''main'', ''Main'', ''main2'', ''production'', ''dev'']
      = filter (\<lambda>n. n \<noteq> ''main'' \<and> n \<noteq> ''master'' \<and> n \<noteq> ''staging'' \<and> n \<noteq> ''production'')
          [''main'', ''Main'', ''main2'', ''production'', ''dev'']"
    using protected_names_never_classified
      [of "exampleWorld scenarioRemote bothMerged agedDates [] ''Yes''" "''/repo''" initial
        "[\<lparr>name = ''feature-a'', lastCommitDate = Date 1765440000000\<rparr>]"
        "[\<lparr>name = ''feature-b'', lastCommitDate = Date 1798272000000\<rparr>]" initial
        "[''main'', ''Main'', ''main2'', ''production'', ''dev'']"]
    by blast
  then have "filterOutKeyBranchNames [''main'', ''Main'', ''main2'', ''production'', ''dev'']
       = [''Main'', ''main2'', ''dev'']"
    by simp
  then show ?thesis using h by blast
qed

text \<open>
  C4, as the code has it. A commit-date lookup fails when its fetch exits with a code
  other than zero, when its date query does, or when the trimmed text of the date query
  is no number or gives Invalid Date or the epoch itself. A run in which a lookup
  failed ends with exit code 1, has shown no prompt and has issued no deletion command;
  and a list of resolved dates has one record for every candidate, in order: no branch
  is skipped. A text that is a number but not a positive integer is accepted.
\<close>

theorem failed_lookup_aborts_run:
  assumes "someLookupFailed e (issued (snd (script e d)))"
  shows "fst (script e d) = 1 \<and> asked (snd (script e d)) = None
       \<and> deletions (snd (script e d)) = []
       \<and> (\<forall>names s bs s'. getBranchDates e d names s = (Inr bs, s') \<longrightarrow> map name bs = names)"
proof -
  from assms obtain i where i: "i < length (issued (snd (script e d)))"
      "lookupFailedAt e (issued (snd (script e d))) i"
    by (auto simp: someLookupFailed_def list_ex_iff)
  obtain r s1 where c: "classifyBranches e d initial = (r, s1)"
    by (cases "classifyBranches e d initial")
  have run: "fst (script e d) = 1 \<and> asked (snd (script e d)) = None
       \<and> deletions (snd (script e d)) = []"
  proof (cases r)
    case (Inl err)
    then have "script e d = (1, s1)" using c script_rejected by simp
    moreover have "filter isDeleteCommand (issued s1) = []"
      using classifyBranches_initial(2) [OF c] by (simp add: filter_empty_conv)
    ultimately show ?thesis
      using classifyBranches_initial(1) [OF c] by (simp add: deletions_def)
  next
    case (Inr p)
    obtain S M where p: "p = (S, M)" by (cases p)
    have c': "classifyBranches e d initial = (Inr (S, M), s1)" using c Inr p by simp
    have clean: "\<not> lookupFailedAt e (issued s1) k" if "k < length (issued s1)" for k
      using classifyBranches_initial(3) [OF c'] that by auto
    have False
    proof (cases "userInput e = ''yes''")
      case False
      then have "issued (snd (script e d)) = issued s1"
        using script_declined [OF c'] by simp
      then show False using i clean by simp
    next
      case True
      obtain r2 s2 where del: "deleteBranches e d (S @ M) (s1\<lparr>asked := Some (S, M)\<rparr>) = (r2, s2)"
        by (cases "deleteBranches e d (S @ M) (s1\<lparr>asked := Some (S, M)\<rparr>)")
      have log: "issued (snd (script e d)) = issued s1 @ deletionsFor d (S @ M)"
        using script_accepted [OF c' True del] deleteBranches_run(1) [OF del] by simp
      show False
      proof (cases "i < length (issued s1)")
        case True
        then show False
          using i(2) clean unfolding log by (simp add: lookupFailedAt_append)
      next
        case False
        then show False
          using i no_lookup_among_deletions [of "issued s1" i d "S @ M" e] unfolding log by simp
      qed
    qed
    then show ?thesis ..
  qed
  have "\<forall>names s bs s'. getBranchDates e d names s = (Inr bs, s') \<longrightarrow> map name bs = names"
    using getBranchDates_names by blast
  then show ?thesis using run by blast
qed

theorem failed_lookup_aborts_run_witness:
  "someLookupFailed
     (exampleWorld scenarioRemote scenarioMerged scenarioDates [''git fetch origin feature-b''] ''yes'')
     (issued (snd (script (exampleWorld scenarioRemote scenarioMerged scenarioDates
                             [''git fetch origin feature-b''] ''yes'') ''/repo'')))
   \<and> fst (script (exampleWorld scenarioRemote scenarioMerged scenarioDates
                    [''git fetch origin feature-b''] ''yes'') ''/repo'') = 1
   \<and> asked (snd (script (exampleWorld scenarioRemote scenarioMerged scenarioDates
                           [''git fetch origin feature-b''] ''yes'') ''/repo'')) = None
   \<and> deletions (snd (script (exampleWorld scenarioRemote scenarioMerged scenarioDates
                               [''git fetch origin feature-b''] ''yes'') ''/repo'')) = []"
proof -
  have h: "someLookupFailed
     (exampleWorld scenarioRemote scenarioMerged scenarioDates [''git fetch origin feature-b''] ''yes'')
     (issued (snd (script (exampleWorld scenarioRemote scenarioMerged scenarioDates
                             [''git fetch origin feature-b''] ''yes'') ''/repo'')))"
    unfolding run_failed_fetch by code_simp
  from failed_lookup_aborts_run [OF h] h show ?thesis by blast
qed

text \<open>
  The claim as stated fails on a date query that prints \<^verbatim>\<open>-5\<close>: the text is no
  positive integer, yet the run goes on, classifies the branch as stale with a date 5
  seconds before the epoch, shows the prompt and deletes the branch.
\<close>

theorem negative_timestamp_counterexample:
  "fst (script (exampleWorld scenarioRemote scenarioMerged negativeDates [] ''yes'') ''/repo'') = 0
   \<and> asked (snd (script (exampleWorld scenarioRemote scenarioMerged negativeDates [] ''yes'')
                    ''/repo''))
       = Some ([\<lparr>name = ''feature-a'', lastCommitDate = Date (- 5000)\<rparr>], [])
   \<and> deletions (snd (script (exampleWorld scenarioRemote scenarioMerged negativeDates [] ''yes'')
                        ''/repo''))
       = [(''git push origin --delete feature-a'', ''/repo'')]
   \<and> map_of negativeDates ''git show -s --format=%ct origin/feature-a'' = Some (unlines [''-5''])"
proof -
  have "filter isDeleteCommand
      [(''git remote prune origin'', ''/repo''),
       (''git ls-remote --heads origin'', ''/repo''),
       (''git branch -r --merged'', ''/repo''),
       (''git fetch origin feature-a'', ''/repo''),
       (''git show -s --format=%ct origin/feature-a'', ''/repo''),
       (''git fetch origin feature-b'', ''/repo''),
       (''git show -s --format=%ct origin/feature-b'', ''/repo''),
       (''git fetch origin feature-a'', ''/repo''),
       (''git show -s --format=%ct origin/feature-a'', ''/repo''),
       (''git push origin --delete feature-a'', ''/repo'')]
     = [(''git push origin --delete feature-a'', ''/repo'')]"
    by code_simp
  moreover have "map_of negativeDates ''git show -s --format=%ct origin/feature-a''
      = Some (unlines [''-5''])"
    by code_simp
  ultimately show ?thesis
    by (simp add: run_negative_timestamp deletions_def)
qed

text \<open>A run that reached the prompt takes the exit branch exactly for a response other than yes.\<close>

lemma response_gate:
  assumes "classifyBranches e d initial = (Inr (S, M), s1)"
  shows "(fst (deleteStaleAndMergedBranches e d initial) = Inr (ProcessExit 0))
           = (userInput e \<noteq> ''yes'')"
proof (cases "userInput e = ''yes''")
  case True
  obtain r2 s2 where del: "deleteBranches e d (S @ M) (s1\<lparr>asked := Some (S, M)\<rparr>) = (r2, s2)"
    by (cases "deleteBranches e d (S @ M) (s1\<lparr>asked := Some (S, M)\<rparr>)")
  show ?thesis
    using assms True del
    by (cases r2)
      (simp_all add: deleteStaleAndMergedBranches_def await_def waitForUserToAccept_def
        askQuestion_def resolve_def)
next
  case False
  then show ?thesis
    using assms
    by (simp add: deleteStaleAndMergedBranches_def await_def waitForUserToAccept_def
        askQuestion_def resolve_def)
qed

text \<open>
  C5. For every response at the prompt, the deleter runs and issues its deletion
  commands, one for every approved record, if and only if the response is exactly
  \<^verbatim>\<open>yes\<close> (the comparison is that of strings, with no trimming and no folding of
  case); for any other response, the empty one too, the function calls
  \<^verbatim>\<open>process.exit(0)\<close>, the run ends with exit code 0, and no deletion command is issued.
\<close>

theorem deletion_needs_exact_yes:
  assumes "asked (snd (script e d)) = Some (S, M)"
  shows "((fst (deleteStaleAndMergedBranches e d initial) = Inr (ProcessExit 0))
            \<longleftrightarrow> userInput e \<noteq> ''yes'')
       \<and> (userInput e \<noteq> ''yes'' \<longrightarrow>
            fst (script e d) = 0 \<and> deletions (snd (script e d)) = [])
       \<and> (userInput e = ''yes'' \<longrightarrow> deletions (snd (script e d)) = deletionsFor d (S @ M))
       \<and> (S @ M \<noteq> [] \<longrightarrow> (deletions (snd (script e d)) \<noteq> [] \<longleftrightarrow> userInput e = ''yes''))
       \<and> (S @ M = [] \<longrightarrow> deletions (snd (script e d)) = [])"
proof -
  obtain s1 where cl: "classifyBranches e d initial = (Inr (S, M), s1)"
    using prompt_shows_classification [OF assms] by blast
  have g: "(fst (deleteStaleAndMergedBranches e d initial) = Inr (ProcessExit 0))
            \<longleftrightarrow> userInput e \<noteq> ''yes''"
    using response_gate [OF cl] by simp
  from prompted_run [OF assms]
  obtain before where nodel: "\<forall>c\<in>set before. \<not> isDeleteCommand c"
      and no: "userInput e \<noteq> ''yes'' \<longrightarrow>
                 issued (snd (script e d)) = before \<and> fst (script e d) = 0"
      and yes: "userInput e = ''yes'' \<longrightarrow>
                  issued (snd (script e d)) = before @ deletionsFor d (S @ M)"
    by blast
  have none: "filter isDeleteCommand before = []"
    using nodel by (simp add: filter_empty_conv)
  have a: "userInput e \<noteq> ''yes'' \<longrightarrow>
            fst (script e d) = 0 \<and> deletions (snd (script e d)) = []"
    using no none by (simp add: deletions_def)
  have b: "userInput e = ''yes'' \<longrightarrow> deletions (snd (script e d)) = deletionsFor d (S @ M)"
    using yes none by (simp add: deletions_def deletions_of_batch)
  have c: "S @ M \<noteq> [] \<longrightarrow> (deletions (snd (script e d)) \<noteq> [] \<longleftrightarrow> userInput e = ''yes'')"
    using a b deletionsFor_empty [of d "S @ M"] by metis
  have e: "S @ M = [] \<longrightarrow> deletions (snd (script e d)) = []"
    using a b deletionsFor_empty [of d "S @ M"] by metis
  show ?thesis using g a b c e by blast
qed

theorem deletion_needs_exact_yes_witness:
  "asked (snd (script (exampleWorld scenarioRemote bothMerged agedDates [] ''Yes'') ''/repo''))
     = Some ([\<lparr>name = ''feature-a'', lastCommitDate = Date 1765440000000\<rparr>],
             [\<lparr>name = ''feature-b'', lastCommitDate = Date 1798272000000\<rparr>])
   \<and> userInput (exampleWorld scenarioRemote bothMerged agedDates [] ''Yes'') \<noteq> ''yes''
   \<and> fst (deleteStaleAndMergedBranches
            (exampleWorld scenarioRemote bothMerged agedDates [] ''Yes'') ''/repo'' initial)
       = Inr (ProcessExit 0)
   \<and> fst (script (exampleWorld scenarioRemote bothMerged agedDates [] ''Yes'') ''/repo'') = 0
   \<and> deletions (snd (script (exampleWorld scenarioRemote bothMerged agedDates [] ''Yes'')
                        ''/repo'')) = []
   \<and> asked (snd (script (exampleWorld widerRemote onlyMainMerged widerDates
                         [''git push origin --delete feature-c''] ''yes'') ''/repo''))
     = Some ([\<lparr>name = ''feature-a'', lastCommitDate = Date 1765440000000\<rparr>,
              \<lparr>name = ''feature-c'', lastCommitDate = Date 1782720000000\<rparr>,
              \<lparr>name = ''feature-d'', lastCommitDate = Date 1791360000000\<rparr>], [])
   \<and> userInput (exampleWorld widerRemote onlyMainMerged widerDates
                   [''git push origin --delete feature-c''] ''yes'') = ''yes''
   \<and> fst (deleteStaleAndMergedBranches
            (exampleWorld widerRemote onlyMainMerged widerDates
               [''git push origin --delete feature-c''] ''yes'') ''/repo'' initial)
       \<noteq> Inr (ProcessExit 0)
   \<and> deletions (snd (script (exampleWorld widerRemote onlyMainMerged widerDates
                         [''git push origin --delete feature-c''] ''yes'') ''/repo''))
       = deletionsFor ''/repo''
           [\<lparr>name = ''feature-a'', lastCommitDate = Date 1765440000000\<rparr>,
            \<lparr>name = ''feature-c'', lastCommitDate = Date 1782720000000\<rparr>,
            \<lparr>name = ''feature-d'', lastCommitDate = Date 1791360000000\<rparr>]"
proof -
  have h: "asked (snd (script (exampleWorld scenarioRemote bothMerged agedDates [] ''Yes'') ''/repo''))
     = Some ([\<lparr>name = ''feature-a'', lastCommitDate = Date 1765440000000\<rparr>],
             [\<lparr>name = ''feature-b'', lastCommitDate = Date 1798272000000\<rparr>])"
    by (simp add: run_aged_scenario)
  have u: "userInput (exampleWorld scenarioRemote bothMerged agedDates [] ''Yes'') \<noteq> ''yes''"
    by (simp add: exampleWorld_def)
  have h2: "asked (snd (script (exampleWorld widerRemote onlyMainMerged widerDates
                         [''git push origin --delete feature-c''] ''yes'') ''/repo''))
     = Some ([\<lparr>name = ''feature-a'', lastCommitDate = Date 1765440000000\<rparr>,
              \<lparr>name = ''feature-c'', lastCommitDate = Date 1782720000000\<rparr>,
              \<lparr>name = ''feature-d'', lastCommitDate = Date 1791360000000\<rparr>], [])"
    by (simp add: run_failed_deletion)
  have u2: "userInput (exampleWorld widerRemote onlyMainMerged widerDates
                   [''git push origin --delete feature-c''] ''yes'') = ''yes''"
    by (simp add: exampleWorld_def)
  have no: "fst (deleteStaleAndMergedBranches
            (exampleWorld scenarioRemote bothMerged agedDates [] ''Yes'') ''/repo'' initial)
       = Inr (ProcessExit 0)
     \<and> fst (script (exampleWorld scenarioRemote bothMerged agedDates [] ''Yes'') ''/repo'') = 0
     \<and> deletions (snd (script (exampleWorld scenarioRemote bothMerged agedDates [] ''Yes'')
                        ''/repo'')) = []"
    using deletion_needs_exact_yes [OF h] u by blast
  have yes: "fst (deleteStaleAndMergedBranches
            (exampleWorld widerRemote onlyMainMerged widerDates
               [''git push origin --delete feature-c''] ''yes'') ''/repo'' initial)
       \<noteq> Inr (ProcessExit 0)
     \<and> deletions (snd (script (exampleWorld widerRemote onlyMainMerged widerDates
                         [''git push origin --delete feature-c''] ''yes'') ''/repo''))
       = deletionsFor ''/repo''
           ([\<lparr>name = ''feature-a'', lastCommitDate = Date 1765440000000\<rparr>,
             \<lparr>name = ''feature-c'', lastCommitDate = Date 1782720000000\<rparr>,
             \<lparr>name = ''feature-d'', lastCommitDate = Date 1791360000000\<rparr>] @ [])"
    using deletion_needs_exact_yes [OF h2] u2 by blast
  show ?thesis using h u h2 u2 no yes by simp
qed

text \<open>
  C8. After the response \<^verbatim>\<open>yes\<close> the deleter is applied to the stale list followed by
  the merged list: the run issues one deletion command for every record, in that order,
  all of them whether or not one fails, and nothing after them, so no deletion is
  rolled back. The run ends with exit code 1 if one of the deletion commands exited
  with a code other than zero, and with exit code 0 otherwise.
\<close>

theorem deleter_runs_whole_batch:
  assumes "asked (snd (script e d)) = Some (S, M)" and "userInput e = ''yes''"
  shows "(\<exists>before. issued (snd (script e d)) = before @ deletionsFor d (S @ M)
                  \<and> (\<forall>c\<in>set before. \<not> isDeleteCommand c))
       \<and> deletions (snd (script e d))
           = map (\<lambda>branch. (''git push origin --delete '' @ name branch, d)) (S @ M)
       \<and> fst (script e d)
           = (if someDeletionFailed e (issued (snd (script e d))) then 1 else 0)"
proof -
  from prompted_run [OF assms(1)] assms(2)
  obtain before where nodel: "\<forall>c\<in>set before. \<not> isDeleteCommand c"
      and log: "issued (snd (script e d)) = before @ deletionsFor d (S @ M)"
      and code: "fst (script e d)
             = (if \<exists>j<length (S @ M).
                      exitCode (outputAt e (before @ deletionsFor d (S @ M)) (length before + j)) \<noteq> 0
                then 1 else 0)"
    by blast
  have none: "filter isDeleteCommand before = []"
    using nodel by (simp add: filter_empty_conv)
  have "deletions (snd (script e d)) = deletionsFor d (S @ M)"
    using log none by (simp add: deletions_def deletions_of_batch)
  then have dels: "deletions (snd (script e d))
      = map (\<lambda>branch. (''git push origin --delete '' @ name branch, d)) (S @ M)"
    by (simp add: deletionsFor_def deleteCommand_def)
  have "fst (script e d) = (if someDeletionFailed e (issued (snd (script e d))) then 1 else 0)"
    using code deletion_failure_in_batch [OF nodel, of e d "S @ M"] unfolding log by simp
  then show ?thesis using nodel log dels by blast
qed

theorem deleter_runs_whole_batch_witness:
  "asked (snd (script (exampleWorld widerRemote onlyMainMerged widerDates
                         [''git push origin --delete feature-c''] ''yes'') ''/repo''))
     = Some ([\<lparr>name = ''feature-a'', lastCommitDate = Date 1765440000000\<rparr>,
              \<lparr>name = ''feature-c'', lastCommitDate = Date 1782720000000\<rparr>,
              \<lparr>name = ''feature-d'', lastCommitDate = Date 1791360000000\<rparr>], [])
   \<and> userInput (exampleWorld widerRemote onlyMainMerged widerDates
                   [''git push origin --delete feature-c''] ''yes'') = ''yes''
   \<and> deletions (snd (script (exampleWorld widerRemote onlyMainMerged widerDates
                         [''git push origin --delete feature-c''] ''yes'') ''/repo''))
       = [(''git push origin --delete feature-a'', ''/repo''),
          (''git push origin --delete feature-c'', ''/repo''),
          (''git push origin --delete feature-d'', ''/repo'')]
   \<and> fst (script (exampleWorld widerRemote onlyMainMerged widerDates
                    [''git push origin --delete feature-c''] ''yes'') ''/repo'') = 1"
proof -
  have h: "asked (snd (script (exampleWorld widerRemote onlyMainMerged widerDates
                         [''git push origin --delete feature-c''] ''yes'') ''/repo''))
     = Some ([\<lparr>name = ''feature-a'', lastCommitDate = Date 1765440000000\<rparr>,
              \<lparr>name = ''feature-c'', lastCommitDate = Date 1782720000000\<rparr>,
              \<lparr>name = ''feature-d'', lastCommitDate = Date 1791360000000\<rparr>], [])"
    by (simp add: run_failed_deletion)
  have u: "userInput (exampleWorld widerRemote onlyMainMerged widerDates
                   [''git push origin --delete feature-c''] ''yes'') = ''yes''"
    by (simp add: exampleWorld_def)
  have c: "fst (script (exampleWorld widerRemote onlyMainMerged widerDates
                    [''git push origin --delete feature-c''] ''yes'') ''/repo'') = 1"
    by (simp add: run_failed_deletion)
  from deleter_runs_whole_batch [OF h u]
  have "deletions (snd (script (exampleWorld widerRemote onlyMainMerged widerDates
                         [''git push origin --delete feature-c''] ''yes'') ''/repo''))
       = [(''git push origin --delete feature-a'', ''/repo''),
          (''git push origin --delete feature-c'', ''/repo''),
          (''git push origin --delete feature-d'', ''/repo'')]"
    by simp
  then show ?thesis using h u c by blast
qed

text \<open>A run whose classification is rejected ends with code 1, before the prompt.\<close>

lemma rejected_run:
  assumes "isl (fst (classifyBranches e d initial))"
  shows "fst (script e d) = 1 \<and> asked (snd (script e d)) = None
       \<and> deletions (snd (script e d)) = []"
proof -
  obtain r s1 where c: "classifyBranches e d initial = (r, s1)"
    by (cases "classifyBranches e d initial")
  then obtain err where "r = Inl err" using assms by (cases r) simp_all
  then have "script e d = (1, s1)" using c script_rejected by simp
  moreover have "filter isDeleteCommand (issued s1) = []"
    using classifyBranches_initial(2) [OF c] by (simp add: filter_empty_conv)
  ultimately show ?thesis
    using classifyBranches_initial(1) [OF c] by (simp add: deletions_def)
qed

lemma pruneRemote_run:
  "pruneRemote e d s
     = (if exitCode (shell e (issued s) (''git remote prune origin'', d)) \<noteq> 0
        then Inl (ShellError ''git remote prune origin''
                    (exitCode (shell e (issued s) (''git remote prune origin'', d))))
        else Inr (),
        s\<lparr>issued := issued s @ [(''git remote prune origin'', d)]\<rparr>)"
  by (simp add: pruneRemote_def await_def runShellCommand_def Let_def resolve_def)

lemma getAllRemoteBranches_state:
  "issued (snd (getAllRemoteBranches e d s))
     = issued s @ [(''git ls-remote --heads origin'', d)]"
  by (simp add: getAllRemoteBranches_def await_def runShellCommand_def Let_def
      reject_def resolve_def split: sum.splits)

lemma classify_rejected_by_remote_listing:
  assumes "isl (fst (getAllRemoteBranches e d
                       (s\<lparr>issued := issued s @ [(''git remote prune origin'', d)]\<rparr>)))"
  shows "isl (fst (classifyBranches e d s))"
proof -
  let ?s1 = "s\<lparr>issued := issued s @ [(''git remote prune origin'', d)]\<rparr>"
  obtain r2 s2 where a: "getAllRemoteBranches e d ?s1 = (r2, s2)"
    by (cases "getAllRemoteBranches e d ?s1")
  then obtain err where r2: "r2 = Inl err" using assms by (cases r2) simp_all
  show ?thesis
    using a r2 by (simp add: classifyBranches_def await_def pruneRemote_run)
qed

lemma classify_rejected_by_merged_listing:
  assumes "isl (fst (getAllMergedRemoteBranches e d
                       (snd (getAllRemoteBranches e d
                          (s\<lparr>issued := issued s @ [(''git remote prune origin'', d)]\<rparr>)))))"
  shows "isl (fst (classifyBranches e d s))"
proof -
  let ?s1 = "s\<lparr>issued := issued s @ [(''git remote prune origin'', d)]\<rparr>"
  obtain r2 s2 where a: "getAllRemoteBranches e d ?s1 = (r2, s2)"
    by (cases "getAllRemoteBranches e d ?s1")
  obtain r3 s3 where m: "getAllMergedRemoteBranches e d s2 = (r3, s3)"
    by (cases "getAllMergedRemoteBranches e d s2")
  obtain err where r3: "r3 = Inl err" using assms a m by (cases r3) simp_all
  show ?thesis
    using a m r3
    by (cases r2) (simp_all add: classifyBranches_def await_def pruneRemote_run Let_def)
qed

text \<open>
  C3, as the code has it. In each of the two listing queries the empty lines of the
  output are dropped. A non-empty line that does not match the expected shape is not
  dropped: the first such line makes the whole query fail with the error "Failed to
  extract branch name from" that line, no branch name is returned, and the run ends
  with exit code 1 before the prompt. Where every non-empty line matches, the query
  returns group 1 of each line, in order.
\<close>

theorem listing_fails_on_malformed_line:
  assumes "re = mergedBranchLine \<or> re = remoteBranchLine"
  shows "((\<forall>l\<in>set (splitLines out). l \<noteq> [] \<longrightarrow> safeMatch l re \<noteq> []) \<longrightarrow>
            branchNamesOf re out
              = Inr (map (\<lambda>l. safeMatch l re ! 1) (filter (\<lambda>l. l \<noteq> []) (splitLines out))))
       \<and> (\<forall>pre l post.
             filter (\<lambda>l. l \<noteq> []) (splitLines out) = pre @ l # post
             \<and> (\<forall>x\<in>set pre. safeMatch x re \<noteq> []) \<and> safeMatch l re = []
             \<longrightarrow> branchNamesOf re out = Inl (failedToExtract l))
       \<and> ((\<exists>l\<in>set (splitLines out). l \<noteq> [] \<and> safeMatch l re = []) \<longrightarrow>
            (\<exists>pre l post.
               filter (\<lambda>l. l \<noteq> []) (splitLines out) = pre @ l # post
               \<and> (\<forall>x\<in>set pre. safeMatch x re \<noteq> []) \<and> safeMatch l re = []
               \<and> branchNamesOf re out = Inl (failedToExtract l)))
       \<and> fst (getAllMergedRemoteBranches e dir s)
            = (let r = shell e (issued s) (''git branch -r --merged'', dir)
               in if exitCode r \<noteq> 0
                  then Inl (ShellError ''git branch -r --merged'' (exitCode r))
                  else branchNamesOf mergedBranchLine (stdout r))
       \<and> fst (getAllRemoteBranches e dir s)
            = (let r = shell e (issued s) (''git ls-remote --heads origin'', dir)
               in if exitCode r \<noteq> 0
                  then Inl (ShellError ''git ls-remote --heads origin'' (exitCode r))
                  else branchNamesOf remoteBranchLine (stdout r))
       \<and> ((\<exists>l\<in>set (splitLines (stdout (shell e [(''git remote prune origin'', dir)]
                                           (''git ls-remote --heads origin'', dir)))).
              l \<noteq> [] \<and> safeMatch l remoteBranchLine = []) \<longrightarrow>
            fst (script e dir) = 1 \<and> asked (snd (script e dir)) = None
            \<and> deletions (snd (script e dir)) = [])
       \<and> ((\<exists>l\<in>set (splitLines (stdout (shell e [(''git remote prune origin'', dir),
                                                  (''git ls-remote --heads origin'', dir)]
                                           (''git branch -r --merged'', dir)))).
              l \<noteq> [] \<and> safeMatch l mergedBranchLine = []) \<longrightarrow>
            fst (script e dir) = 1 \<and> asked (snd (script e dir)) = None
            \<and> deletions (snd (script e dir)) = [])"
proof -
  have good: "(\<forall>l\<in>set (splitLines out). l \<noteq> [] \<longrightarrow> safeMatch l re \<noteq> []) \<longrightarrow>
            branchNamesOf re out
              = Inr (map (\<lambda>l. safeMatch l re ! 1) (filter (\<lambda>l. l \<noteq> []) (splitLines out)))"
    using branchNamesOf_ok [OF assms, of out] by blast
  have first: "\<forall>pre l post.
             filter (\<lambda>l. l \<noteq> []) (splitLines out) = pre @ l # post
             \<and> (\<forall>x\<in>set pre. safeMatch x re \<noteq> []) \<and> safeMatch l re = []
             \<longrightarrow> branchNamesOf re out = Inl (failedToExtract l)"
    using branchNamesOf_first [OF assms, of out] by blast
  have fails: "(\<exists>l\<in>set (splitLines out). l \<noteq> [] \<and> safeMatch l re = []) \<longrightarrow>
            (\<exists>pre l post.
               filter (\<lambda>l. l \<noteq> []) (splitLines out) = pre @ l # post
               \<and> (\<forall>x\<in>set pre. safeMatch x re \<noteq> []) \<and> safeMatch l re = []
               \<and> branchNamesOf re out = Inl (failedToExtract l))"
  proof
    assume "\<exists>l\<in>set (splitLines out). l \<noteq> [] \<and> safeMatch l re = []"
    from first_malformed_line [OF this]
    obtain pre l post where d: "filter (\<lambda>l. l \<noteq> []) (splitLines out) = pre @ l # post"
        "\<forall>x\<in>set pre. safeMatch x re \<noteq> []" "safeMatch l re = []"
      by blast
    have "branchNamesOf re out = Inl (failedToExtract l)"
      using branchNamesOf_first [OF assms d] .
    then show "\<exists>pre l post.
               filter (\<lambda>l. l \<noteq> []) (splitLines out) = pre @ l # post
               \<and> (\<forall>x\<in>set pre. safeMatch x re \<noteq> []) \<and> safeMatch l re = []
               \<and> branchNamesOf re out = Inl (failedToExtract l)"
      using d by blast
  qed
  have isl_names: "isl (branchNamesOf r listing)"
    if "r = mergedBranchLine \<or> r = remoteBranchLine"
      and "\<exists>l\<in>set (splitLines listing). l \<noteq> [] \<and> safeMatch l r = []" for r listing
    using branchNamesOf_fails [OF that] by auto
  let ?s1 = "initial\<lparr>issued := issued initial @ [(''git remote prune origin'', dir)]\<rparr>"
  have log1: "issued ?s1 = [(''git remote prune origin'', dir)]"
    by (simp add: initial_def)
  have log2: "issued (snd (getAllRemoteBranches e dir ?s1))
      = [(''git remote prune origin'', dir), (''git ls-remote --heads origin'', dir)]"
    by (simp add: getAllRemoteBranches_state initial_def)
  have remote: "(\<exists>l\<in>set (splitLines (stdout (shell e [(''git remote prune origin'', dir)]
                                           (''git ls-remote --heads origin'', dir)))).
              l \<noteq> [] \<and> safeMatch l remoteBranchLine = []) \<longrightarrow>
            fst (script e dir) = 1 \<and> asked (snd (script e dir)) = None
            \<and> deletions (snd (script e dir)) = []"
  proof
    assume bad: "\<exists>l\<in>set (splitLines (stdout (shell e [(''git remote prune origin'', dir)]
                                           (''git ls-remote --heads origin'', dir)))).
              l \<noteq> [] \<and> safeMatch l remoteBranchLine = []"
    have "isl (fst (getAllRemoteBranches e dir ?s1))"
      unfolding getAllRemoteBranches_result log1 Let_def
      using isl_names [OF _ bad] by simp
    then have "isl (fst (classifyBranches e dir initial))"
      by (rule classify_rejected_by_remote_listing)
    then show "fst (script e dir) = 1 \<and> asked (snd (script e dir)) = None
            \<and> deletions (snd (script e dir)) = []"
      by (rule rejected_run)
  qed
  have merged: "(\<exists>l\<in>set (splitLines (stdout (shell e [(''git remote prune origin'', dir),
                                                  (''git ls-remote --heads origin'', dir)]
                                           (''git branch -r --merged'', dir)))).
              l \<noteq> [] \<and> safeMatch l mergedBranchLine = []) \<longrightarrow>
            fst (script e dir) = 1 \<and> asked (snd (script e dir)) = None
            \<and> deletions (snd (script e dir)) = []"
  proof
    assume bad: "\<exists>l\<in>set (splitLines (stdout (shell e [(''git remote prune origin'', dir),
                                                  (''git ls-remote --heads origin'', dir)]
                                           (''git branch -r --merged'', dir)))).
              l \<noteq> [] \<and> safeMatch l mergedBranchLine = []"
    have "isl (fst (getAllMergedRemoteBranches e dir (snd (getAllRemoteBranches e dir ?s1))))"
      unfolding getAllMergedRemoteBranches_result log2 Let_def
      using isl_names [OF _ bad] by simp
    then have "isl (fst (classifyBranches e dir initial))"
      by (rule classify_rejected_by_merged_listing)
    then show "fst (script e dir) = 1 \<and> asked (snd (script e dir)) = None
            \<and> deletions (snd (script e dir)) = []"
      by (rule rejected_run)
  qed
  show ?thesis
    using good first fails remote merged
      getAllMergedRemoteBranches_result [of e dir s] getAllRemoteBranches_result [of e dir s]
    by blast
qed

theorem listing_fails_on_malformed_line_witness:
  "branchNamesOf mergedBranchLine (unlines [''bad1'', ''  origin/dev'', [], ''bad2''])
     = Inl (failedToExtract ''bad1'')
   \<and> branchNamesOf mergedBranchLine (unlines [''  origin/dev'', [], ''  origin/fix''])
       = Inr [''dev'', ''fix'']
   \<and> fst (script
          (exampleWorld (unlines [''a1b2'' @ [CHR 0x09] @ ''refs/heads/dev'', ''garbage''])
             (unlines [''  origin/dev'']) [] [] ''yes'') ''/repo'') = 1
   \<and> asked (snd (script
          (exampleWorld (unlines [''a1b2'' @ [CHR 0x09] @ ''refs/heads/dev'', ''garbage''])
             (unlines [''  origin/dev'']) [] [] ''yes'') ''/repo'')) = None"
proof -
  have re: "mergedBranchLine = mergedBranchLine \<or> mergedBranchLine = remoteBranchLine"
    by simp
  have split: "filter (\<lambda>l. l \<noteq> []) (splitLines (unlines [''bad1'', ''  origin/dev'', [], ''bad2'']))
      = [] @ ''bad1'' # [''  origin/dev'', ''bad2'']"
    by code_simp
  have pre: "\<forall>x\<in>set ([] :: string list). safeMatch x mergedBranchLine \<noteq> []"
    by simp
  have bad1: "safeMatch ''bad1'' mergedBranchLine = []"
    by code_simp
  have good: "\<forall>l\<in>set (splitLines (unlines [''  origin/dev'', [], ''  origin/fix''])).
      l \<noteq> [] \<longrightarrow> safeMatch l mergedBranchLine \<noteq> []"
    by code_simp
  have names: "map (\<lambda>l. safeMatch l mergedBranchLine ! 1)
      (filter (\<lambda>l. l \<noteq> []) (splitLines (unlines [''  origin/dev'', [], ''  origin/fix''])))
      = [''dev'', ''fix'']"
    by code_simp
  have garbage: "\<exists>l\<in>set (splitLines (stdout (shell
        (exampleWorld (unlines [''a1b2'' @ [CHR 0x09] @ ''refs/heads/dev'', ''garbage''])
             (unlines [''  origin/dev'']) [] [] ''yes'')
        [(''git remote prune origin'', ''/repo'')]
        (''git ls-remote --heads origin'', ''/repo'')))).
      l \<noteq> [] \<and> safeMatch l remoteBranchLine = []"
    by code_simp
  from listing_fails_on_malformed_line
    [OF re, where out = "unlines [''bad1'', ''  origin/dev'', [], ''bad2'']"]
    split pre bad1
  have a: "branchNamesOf mergedBranchLine (unlines [''bad1'', ''  origin/dev'', [], ''bad2''])
     = Inl (failedToExtract ''bad1'')"
    by blast
  from listing_fails_on_malformed_line
    [OF re, where out = "unlines [''  origin/dev'', [], ''  origin/fix'']"] good names
  have b: "branchNamesOf mergedBranchLine (unlines [''  origin/dev'', [], ''  origin/fix''])
      = Inr [''dev'', ''fix'']"
    by simp
  from listing_fails_on_malformed_line
    [OF re, where e = "exampleWorld (unlines [''a1b2'' @ [CHR 0x09] @ ''refs/heads/dev'', ''garbage''])
             (unlines [''  origin/dev'']) [] [] ''yes''" and dir = "''/repo''"] garbage
  have c: "fst (script
          (exampleWorld (unlines [''a1b2'' @ [CHR 0x09] @ ''refs/heads/dev'', ''garbage''])
             (unlines [''  origin/dev'']) [] [] ''yes'') ''/repo'') = 1
     \<and> asked (snd (script
          (exampleWorld (unlines [''a1b2'' @ [CHR 0x09] @ ''refs/heads/dev'', ''garbage''])
             (unlines [''  origin/dev'']) [] [] ''yes'') ''/repo'')) = None"
    by blast
  show ?thesis using a b c by blast
qed

text \<open>
  The claim as stated fails: with one malformed line among well-formed ones, both
  queries fail instead of returning the branch \<^verbatim>\<open>dev\<close>.
\<close>

theorem listing_drops_malformed_line_counterexample:
  "fst (getAllRemoteBranches
          (exampleWorld (unlines [''a1b2'' @ [CHR 0x09] @ ''refs/heads/dev'', ''garbage''])
             (unlines [''  origin/dev'', ''garbage'']) [] [] ''yes'') ''/repo'' initial)
     = Inl (failedToExtract ''garbage'')
   \<and> fst (getAllMergedRemoteBranches
          (exampleWorld (unlines [''a1b2'' @ [CHR 0x09] @ ''refs/heads/dev'', ''garbage''])
             (unlines [''  origin/dev'', ''garbage'']) [] [] ''yes'') ''/repo'' initial)
     = Inl (failedToExtract ''garbage'')
   \<and> fst (script
          (exampleWorld (unlines [''a1b2'' @ [CHR 0x09] @ ''refs/heads/dev'', ''garbage''])
             (unlines [''  origin/dev'', ''garbage'']) [] [] ''yes'') ''/repo'') = 1"
  by code_simp

end
